theory Spec2Isabelle
  imports Main "HOL-Library.AList"
begin

section \<open>The Smithsonian provider script: values and Python primitives\<close>

text \<open>
  The script works on decoded JSON. A decoded value is \<open>None\<close>, a bool, an int, a
  string, a list or a dict with string keys. A dict is an association list in insertion
  order, read with \<open>map_of\<close>; Python's \<open>None\<close> is \<open>JNull\<close>. A number is an
  integer (a float, which JSON also has, is not modelled). A string is held as the bytes
  of its UTF-8 encoding (a lone surrogate, which a decoded string may hold, as the three
  bytes of its code point), so that every string of the language is a value of the model
  and two strings are equal when their bytes are; the literals of the script are ASCII.

  Python lower-cases a string by the Unicode tables. They are not part of the script and
  are not defined here: \<open>lower\<close>, the first argument of every function that comes
  to lower-case a string, stands for what the language does to a non-empty string, and
  what is proved holds for every such function.

  Modelled are the crawl of one hash prefix (\<open>_process_hash_prefix\<close>) and everything
  it calls, and the generator of the hash prefixes. \<open>main\<close> and the sampling helpers
  (\<open>gather_samples\<close>, \<open>_gather_unit_sample\<close>) are not; logging has no effect on
  any value and is left out.
\<close>

datatype json = JNull | JBool bool | JNum int | JStr string
  | JArr "json list" | JObj "(string \<times> json) list"

type_synonym pydict = "(string \<times> json) list"

text \<open>The exceptions the script can run into; none of them is caught anywhere in it.\<close>

datatype error = AttributeError | TypeError | ValueError | KeyError

fun bind_err :: "error + 'a \<Rightarrow> ('a \<Rightarrow> error + 'b) \<Rightarrow> error + 'b" where
  "bind_err (Inl e) f = Inl e"
| "bind_err (Inr v) f = f v"

text \<open>\<open>obj.get(key, default)\<close>: only a dict has the method.\<close>

fun py_get :: "json \<Rightarrow> string \<Rightarrow> json \<Rightarrow> error + json" where
  "py_get (JObj kvs) k d = Inr (case map_of kvs k of Some v \<Rightarrow> v | None \<Rightarrow> d)"
| "py_get JNull k d = Inl AttributeError"
| "py_get (JBool b) k d = Inl AttributeError"
| "py_get (JNum n) k d = Inl AttributeError"
| "py_get (JStr s) k d = Inl AttributeError"
| "py_get (JArr xs) k d = Inl AttributeError"

text \<open>The characters of a string: in UTF-8 a character is a byte that is no
  continuation byte, followed by the continuation bytes up to the next such byte.\<close>

definition is_continuation :: "char \<Rightarrow> bool" where
  "is_continuation c \<longleftrightarrow> 128 \<le> (of_char c :: nat) \<and> (of_char c :: nat) < 192"

function utf8_chars :: "string \<Rightarrow> string list" where
  "utf8_chars [] = []"
| "utf8_chars (c # cs) =
     (c # takeWhile is_continuation cs) # utf8_chars (dropWhile is_continuation cs)"
  by pat_completeness auto
termination
  by (relation "measure length") (auto simp: length_dropWhile_le less_Suc_eq_le)

text \<open>\<open>for x in obj\<close>: a list gives its elements, a dict its keys, a string its
  characters; nothing else is iterable.\<close>

fun py_iter :: "json \<Rightarrow> error + json list" where
  "py_iter (JArr xs) = Inr xs"
| "py_iter (JObj kvs) = Inr (map (\<lambda>kv. JStr (fst kv)) kvs)"
| "py_iter (JStr s) = Inr (map JStr (utf8_chars s))"
| "py_iter JNull = Inl TypeError"
| "py_iter (JBool b) = Inl TypeError"
| "py_iter (JNum n) = Inl TypeError"

text \<open>Truth value of an object, as \<open>if x\<close> and \<open>and\<close> take it.\<close>

fun py_truthy :: "json \<Rightarrow> bool" where
  "py_truthy JNull = False"
| "py_truthy (JBool b) = b"
| "py_truthy (JNum n) = (n \<noteq> 0)"
| "py_truthy (JStr s) = (s \<noteq> [])"
| "py_truthy (JArr xs) = (xs \<noteq> [])"
| "py_truthy (JObj kvs) = (kvs \<noteq> [])"

text \<open>\<open>type(x) == dict\<close>.\<close>

fun is_dict :: "json \<Rightarrow> bool" where
  "is_dict (JObj kvs) = True"
| "is_dict JNull = False"
| "is_dict (JBool b) = False"
| "is_dict (JNum n) = False"
| "is_dict (JStr s) = False"
| "is_dict (JArr xs) = False"

text \<open>\<open>s.lower()\<close> on a string: the empty string is its own lower case, any other
  string is lower-cased by the language.\<close>

definition str_lower :: "(string \<Rightarrow> string) \<Rightarrow> string \<Rightarrow> string" where
  "str_lower lower s = (if s = [] then [] else lower s)"

text \<open>\<open>x.lower()\<close>: only a string has the method.\<close>

fun py_lower :: "(string \<Rightarrow> string) \<Rightarrow> json \<Rightarrow> error + string" where
  "py_lower lower (JStr s) = Inr (str_lower lower s)"
| "py_lower lower JNull = Inl AttributeError"
| "py_lower lower (JBool b) = Inl AttributeError"
| "py_lower lower (JNum n) = Inl AttributeError"
| "py_lower lower (JArr xs) = Inl AttributeError"
| "py_lower lower (JObj kvs) = Inl AttributeError"

text \<open>\<open>a + b\<close>: lists and strings concatenate, ints and bools add (\<open>True\<close> is 1).\<close>

fun py_add :: "json \<Rightarrow> json \<Rightarrow> error + json" where
  "py_add (JArr xs) (JArr ys) = Inr (JArr (xs @ ys))"
| "py_add (JStr s) (JStr t) = Inr (JStr (s @ t))"
| "py_add (JNum m) (JNum n) = Inr (JNum (m + n))"
| "py_add (JNum m) (JBool b) = Inr (JNum (m + (if b then 1 else 0)))"
| "py_add (JBool a) (JNum n) = Inr (JNum ((if a then 1 else 0) + n))"
| "py_add (JBool a) (JBool b) = Inr (JNum ((if a then 1 else 0) + (if b then 1 else 0)))"
| "py_add _ _ = Inl TypeError"

text \<open>\<open>m < x\<close> for an int \<open>m\<close>: defined against an int or a bool only.\<close>

fun py_int_lt :: "int \<Rightarrow> json \<Rightarrow> error + bool" where
  "py_int_lt m (JNum n) = Inr (m < n)"
| "py_int_lt m (JBool b) = Inr (m < (if b then 1 else 0))"
| "py_int_lt m JNull = Inl TypeError"
| "py_int_lt m (JStr s) = Inl TypeError"
| "py_int_lt m (JArr xs) = Inl TypeError"
| "py_int_lt m (JObj kvs) = Inl TypeError"

text \<open>\<open>d.update(k=v)\<close> on a dict held as a value: an existing key keeps its place,
  a new key goes to the end.\<close>

definition dict_update :: "string \<Rightarrow> json \<Rightarrow> pydict \<Rightarrow> pydict" where
  "dict_update k v d = AList.update k v d"

section \<open>Constants of the module\<close>

definition LIMIT :: int where
  "LIMIT = 1000"

definition HASH_PREFIX_LENGTH :: int where
  "HASH_PREFIX_LENGTH = 2"

definition SEARCH_ENDPOINT :: string where
  "SEARCH_ENDPOINT = ''https://api.si.edu/openaccess/api/v1.0/search''"

definition ZERO_URL :: string where
  "ZERO_URL = ''https://creativecommons.org/publicdomain/zero/1.0/''"

definition RETRIES :: nat where
  "RETRIES = 3"

definition CREATOR_TYPES :: "(string \<times> int) list" where
  "CREATOR_TYPES =
    [(''artist'', 0), (''artist/maker'', 0), (''attributed to'', 0), (''author'', 0),
     (''created_by'', 0), (''creator'', 0), (''model maker'', 0), (''photographer'', 0),
     (''photograph by'', 0), (''written by'', 0),
     (''architect'', 1), (''designer'', 1),
     (''compiled by'', 2), (''engraver'', 2), (''etcher'', 2), (''maker'', 2),
     (''silversmith'', 2),
     (''print maker'', 3), (''after'', 3), (''inventor'', 0),
     (''manufactured by'', 4), (''manufacturer'', 4), (''published by'', 4),
     (''publisher'', 4),
     (''patentee'', 5)]"

section \<open>Hash prefixes\<close>

definition hex_digit :: "nat \<Rightarrow> char" where
  "hex_digit d = ''0123456789abcdef'' ! d"

fun to_hex :: "nat \<Rightarrow> string" where
  "to_hex n = (if n < 16 then [hex_digit n] else to_hex (n div 16) @ [hex_digit (n mod 16)])"

declare to_hex.simps [simp del]

text \<open>\<open>format(h, '0Wx')\<close> for \<open>h \<ge> 0\<close>: lower-case hexadecimal, padded with zeros on
  the left to width \<open>W\<close>. (No format call is reached with \<open>W \<le> 0\<close>: \<open>int\<close> has raised
  before.)\<close>

definition py_format_hex :: "int \<Rightarrow> nat \<Rightarrow> string" where
  "py_format_hex w h = (let s = to_hex h in replicate (nat w - length s) (CHR ''0'') @ s)"

definition hex_val :: "char \<Rightarrow> nat option" where
  "hex_val c =
     (case map_of (zip ''0123456789abcdef'' [0 ..< 16]) c of
        Some d \<Rightarrow> Some d
      | None \<Rightarrow> map_of (zip ''ABCDEF'' [10 ..< 16]) c)"

fun int16_acc :: "nat \<Rightarrow> string \<Rightarrow> nat option" where
  "int16_acc a [] = Some a"
| "int16_acc a (c # cs) =
     (case hex_val c of None \<Rightarrow> None | Some d \<Rightarrow> int16_acc (16 * a + d) cs)"

text \<open>\<open>int(s, 16)\<close> on a string of hexadecimal digits; the empty string is not a
  number. (Signs, blanks, underscores and a \<open>0x\<close> prefix, which Python also reads, are
  not modelled: the script only passes a run of \<open>f\<close>.)\<close>

definition py_int16 :: "string \<Rightarrow> error + int" where
  "py_int16 s =
     (if s = [] then Inl ValueError
      else case int16_acc 0 s of None \<Rightarrow> Inl ValueError | Some n \<Rightarrow> Inr (int n))"

text \<open>The generator \<open>_get_hash_prefixes\<close>, as the list of what it yields; an exception
  of its body comes out at the first \<open>next\<close>.\<close>

definition get_hash_prefixes :: "int \<Rightarrow> error + string list" where
  "get_hash_prefixes prefix_length =
     (let max_prefix = replicate (nat prefix_length) (CHR ''f'') in
      bind_err (py_int16 max_prefix) (\<lambda>m.
        Inr (map (\<lambda>h. py_format_hex prefix_length h) [0 ..< nat (m + 1)])))"

section \<open>Field extraction\<close>

text \<open>\<open>obj[key]\<close> on a dict.\<close>

fun py_subscript :: "json \<Rightarrow> string \<Rightarrow> error + json" where
  "py_subscript (JObj kvs) k = (case map_of kvs k of Some v \<Rightarrow> Inr v | None \<Rightarrow> Inl KeyError)"
| "py_subscript JNull k = Inl TypeError"
| "py_subscript (JBool b) k = Inl TypeError"
| "py_subscript (JNum n) k = Inl TypeError"
| "py_subscript (JStr s) k = Inl TypeError"
| "py_subscript (JArr xs) k = Inl TypeError"

text \<open>\<open>s + x\<close> for a string \<open>s\<close>.\<close>

fun py_str_add :: "string \<Rightarrow> json \<Rightarrow> error + string" where
  "py_str_add s (JStr t) = Inr (s @ t)"
| "py_str_add s JNull = Inl TypeError"
| "py_str_add s (JBool b) = Inl TypeError"
| "py_str_add s (JNum n) = Inl TypeError"
| "py_str_add s (JArr xs) = Inl TypeError"
| "py_str_add s (JObj kvs) = Inl TypeError"

fun map_err :: "('a \<Rightarrow> error + 'b) \<Rightarrow> 'a list \<Rightarrow> error + 'b list" where
  "map_err f [] = Inr []"
| "map_err f (x # xs) = bind_err (f x) (\<lambda>y. bind_err (map_err f xs) (\<lambda>ys. Inr (y # ys)))"

text \<open>\<open>sorted(xs, key=key)\<close>: the keys are computed once, in order, and the sort is
  stable (\<open>sort_key\<close> is the library's stable insertion sort).\<close>

definition py_sorted :: "('a \<Rightarrow> error + int) \<Rightarrow> 'a list \<Rightarrow> error + 'a list" where
  "py_sorted key xs =
     bind_err (map_err key xs) (\<lambda>ks. Inr (map snd (sort_key fst (zip ks xs))))"

definition get_foreign_landing_url :: "json \<Rightarrow> error + json" where
  "get_foreign_landing_url dnr_dict =
     bind_err (py_get dnr_dict ''record_link'' JNull) (\<lambda>foreign_landing_url.
       if foreign_landing_url = JNull then py_get dnr_dict ''guid'' JNull
       else Inr foreign_landing_url)"

text \<open>The condition of the list comprehension over \<open>freetext.get('name', [])\<close>.\<close>

definition is_freetext_creator :: "(string \<Rightarrow> string) \<Rightarrow> (string \<times> int) list \<Rightarrow> json \<Rightarrow> error + bool" where
  "is_freetext_creator lower creator_types i =
     (if \<not> is_dict i then Inr False
      else bind_err (py_get i ''label'' (JStr [])) (\<lambda>label.
           bind_err (py_lower lower label) (\<lambda>l.
             if map_of creator_types l = None then Inr False
             else bind_err (py_get i ''content'' JNull) (\<lambda>c. Inr (py_truthy c)))))"

fun filter_err :: "('a \<Rightarrow> error + bool) \<Rightarrow> 'a list \<Rightarrow> error + 'a list" where
  "filter_err p [] = Inr []"
| "filter_err p (x # xs) =
     bind_err (p x) (\<lambda>keep. bind_err (filter_err p xs) (\<lambda>ys. Inr (if keep then x # ys else ys)))"

text \<open>The sort key \<open>creator_types[x['label'].lower()]\<close>.\<close>

definition creator_rank :: "(string \<Rightarrow> string) \<Rightarrow> (string \<times> int) list \<Rightarrow> json \<Rightarrow> error + int" where
  "creator_rank lower creator_types x =
     bind_err (py_subscript x ''label'') (\<lambda>label.
     bind_err (py_lower lower label) (\<lambda>l.
       case map_of creator_types l of Some r \<Rightarrow> Inr r | None \<Rightarrow> Inl KeyError))"

text \<open>\<open>next(indexed_structured_creator_generator, None)\<close>: the generator's condition
  runs on demand, entry by entry, up to the first entry that passes.\<close>

fun next_personal_main :: "(string \<Rightarrow> string) \<Rightarrow> json list \<Rightarrow> error + json" where
  "next_personal_main lower [] = Inr JNull"
| "next_personal_main lower (i # rest) =
     (if \<not> is_dict i then next_personal_main lower rest
      else bind_err (py_get i ''type'' (JStr [])) (\<lambda>t.
           bind_err (py_lower lower t) (\<lambda>l.
             if l \<noteq> ''personal_main'' then next_personal_main lower rest
             else bind_err (py_get i ''content'' JNull) (\<lambda>c.
               if py_truthy c then py_subscript i ''content''
               else next_personal_main lower rest))))"

text \<open>\<open>_get_creator\<close>. The list comprehension and the sort run at once; the iterable of
  the second generator is read and its iterator made when the generator is created.\<close>

definition get_creator :: "(string \<Rightarrow> string) \<Rightarrow> json \<Rightarrow> json \<Rightarrow> (string \<times> int) list \<Rightarrow> error + json" where
  "get_creator lower indexed_structured freetext creator_types =
     bind_err (py_get freetext ''name'' (JArr [])) (\<lambda>names.
     bind_err (py_iter names) (\<lambda>name_list.
     bind_err (filter_err (is_freetext_creator lower creator_types) name_list) (\<lambda>objs.
     bind_err (py_sorted (creator_rank lower creator_types) objs) (\<lambda>ordered_freetext_creator_objects.
     bind_err (py_get indexed_structured ''name'' (JArr [])) (\<lambda>is_names.
     bind_err (py_iter is_names) (\<lambda>is_list.
     bind_err (case ordered_freetext_creator_objects of
                 [] \<Rightarrow> Inr JNull
               | c # _ \<Rightarrow> py_subscript c ''content'') (\<lambda>creator.
       if creator = JNull then next_personal_main lower is_list else Inr creator)))))))"

text \<open>The loop of \<open>_extract_meta_data\<close> over the notes, with its two accumulators.\<close>

fun extract_notes :: "json list \<Rightarrow> string \<Rightarrow> string \<Rightarrow> error + (string \<times> string)" where
  "extract_notes [] description label_texts = Inr (description, label_texts)"
| "extract_notes (note # notes) description label_texts =
     bind_err (py_get note ''label'' JNull) (\<lambda>label.
       if label = JStr ''Description''
       then bind_err (py_get note ''content'' (JStr [])) (\<lambda>c.
            bind_err (py_str_add '' '' c) (\<lambda>t.
              extract_notes notes (description @ t) label_texts))
       else if label = JStr ''Summary''
       then bind_err (py_get note ''content'' (JStr [])) (\<lambda>c.
            bind_err (py_str_add '' '' c) (\<lambda>t.
              extract_notes notes (description @ t) label_texts))
       else if label = JStr ''Caption''
       then bind_err (py_get note ''content'' (JStr [])) (\<lambda>c.
            bind_err (py_str_add '' '' c) (\<lambda>t.
              extract_notes notes (description @ t) label_texts))
       else if label = JStr ''Label Text''
       then bind_err (py_get note ''content'' (JStr [])) (\<lambda>c.
            bind_err (py_str_add '' '' c) (\<lambda>t.
              extract_notes notes description (label_texts @ t)))
       else extract_notes notes description label_texts)"

definition extract_meta_data :: "json \<Rightarrow> json \<Rightarrow> error + pydict" where
  "extract_meta_data descriptive_non_repeating freetext =
     bind_err (py_get freetext ''notes'' (JArr [])) (\<lambda>notes.
     bind_err (py_iter notes) (\<lambda>note_list.
     bind_err (extract_notes note_list [] []) (\<lambda>(description, label_texts).
     bind_err (py_get descriptive_non_repeating ''unit_code'' JNull) (\<lambda>unit_code.
     bind_err (py_get descriptive_non_repeating ''data_source'' JNull) (\<lambda>data_source.
       let meta_data = [(''unit_code'', unit_code), (''data_source'', data_source)];
           meta_data = (if description \<noteq> []
                        then dict_update ''description'' (JStr description) meta_data
                        else meta_data);
           meta_data = (if label_texts \<noteq> []
                        then dict_update ''label_texts'' (JStr label_texts) meta_data
                        else meta_data)
       in Inr meta_data)))))"

definition extract_tags :: "json \<Rightarrow> error + json" where
  "extract_tags indexed_structured =
     bind_err (py_get indexed_structured ''date'' (JArr [])) (\<lambda>date.
     bind_err (py_get indexed_structured ''object_type'' (JArr [])) (\<lambda>object_type.
     bind_err (py_add date object_type) (\<lambda>t1.
     bind_err (py_get indexed_structured ''topic'' (JArr [])) (\<lambda>topic.
     bind_err (py_add t1 topic) (\<lambda>t2.
     bind_err (py_get indexed_structured ''place'' (JArr [])) (\<lambda>place.
     bind_err (py_add t2 place) (\<lambda>tags.
       Inr (if py_truthy tags then tags else JNull))))))))"

section \<open>The image store and the records sent to it\<close>

record image_record =
  foreign_landing_url :: json
  image_url :: json
  thumbnail_url :: json
  license_url :: string
  foreign_identifier :: json
  title :: json
  creator :: json
  meta_data :: pydict
  raw_tags :: json

text \<open>Modelled from the spec: the \<open>ImageStore\<close> collaborator (\<open>common.storage.image\<close>,
  not part of this file) "accumulates normalized records" and \<open>addItem\<close> returns the
  running total. The model keeps every record it is given, in order, and returns their
  number; what the real store does with a record afterwards is its own business.\<close>

record image_store =
  items :: "image_record list"

definition add_item :: "image_record \<Rightarrow> image_store \<Rightarrow> int \<times> image_store" where
  "add_item r st = (int (length (items st)) + 1, st\<lparr>items := items st @ [r]\<rparr>)"

text \<open>The condition of \<open>_process_image_list\<close>; \<open>and\<close> does not look at the usage
  of an entry whose type is not \<open>Images\<close>.\<close>

definition is_cc0_image :: "json \<Rightarrow> error + bool" where
  "is_cc0_image image_data =
     bind_err (py_get image_data ''type'' JNull) (\<lambda>t.
       if t \<noteq> JStr ''Images'' then Inr False
       else bind_err (py_get image_data ''usage'' (JObj [])) (\<lambda>usage.
            bind_err (py_get usage ''access'' JNull) (\<lambda>access.
              Inr (access = JStr ''CC0''))))"

fun process_image_entries ::
  "json list \<Rightarrow> json \<Rightarrow> json \<Rightarrow> json \<Rightarrow> pydict \<Rightarrow> json \<Rightarrow> string \<Rightarrow> int option \<Rightarrow> image_store
     \<Rightarrow> error + (int option \<times> image_store)" where
  "process_image_entries [] flu ttl crt md tags lic total_images st = Inr (total_images, st)"
| "process_image_entries (image_data # rest) flu ttl crt md tags lic total_images st =
     bind_err (is_cc0_image image_data) (\<lambda>ok.
       if ok then
         bind_err (py_get image_data ''content'' JNull) (\<lambda>content.
         bind_err (py_get image_data ''thumbnail'' JNull) (\<lambda>thumbnail.
         bind_err (py_get image_data ''idsId'' JNull) (\<lambda>ids_id.
           let (n, st') = add_item
                 \<lparr>foreign_landing_url = flu, image_url = content, thumbnail_url = thumbnail,
                  license_url = lic, foreign_identifier = ids_id, title = ttl,
                  creator = crt, meta_data = md, raw_tags = tags\<rparr> st
           in process_image_entries rest flu ttl crt md tags lic (Some n) st')))
       else process_image_entries rest flu ttl crt md tags lic total_images st)"

definition process_image_list ::
  "json \<Rightarrow> json \<Rightarrow> json \<Rightarrow> json \<Rightarrow> pydict \<Rightarrow> json \<Rightarrow> string \<Rightarrow> image_store
     \<Rightarrow> error + (int option \<times> image_store)" where
  "process_image_list image_list flu ttl crt md tags lic st =
     bind_err (py_iter image_list) (\<lambda>entries.
       process_image_entries entries flu ttl crt md tags lic None st)"

text \<open>The body of the loop of \<open>_process_response_json\<close> for one row.\<close>

definition process_row :: "(string \<Rightarrow> string) \<Rightarrow> json \<Rightarrow> int option \<Rightarrow> image_store \<Rightarrow> error + (int option \<times> image_store)" where
  "process_row lower row total_images st =
     bind_err (py_get row ''content'' (JObj [])) (\<lambda>content.
     bind_err (py_get content ''descriptiveNonRepeating'' (JObj [])) (\<lambda>descriptive_non_repeating.
     bind_err (py_get content ''indexedStructured'' (JObj [])) (\<lambda>indexed_structured.
     bind_err (py_get content ''freetext'' JNull) (\<lambda>freetext.
     bind_err (py_get row ''title'' JNull) (\<lambda>ttl.
     bind_err (get_foreign_landing_url descriptive_non_repeating) (\<lambda>landing_url.
     bind_err (get_creator lower indexed_structured freetext CREATOR_TYPES) (\<lambda>crt.
     bind_err (extract_meta_data descriptive_non_repeating freetext) (\<lambda>md.
     bind_err (extract_tags indexed_structured) (\<lambda>tags.
     bind_err (py_get descriptive_non_repeating ''online_media'' (JObj [])) (\<lambda>online_media.
     bind_err (py_get online_media ''media'' JNull) (\<lambda>image_list.
       if image_list \<noteq> JNull
       then process_image_list image_list landing_url ttl crt md tags ZERO_URL st
       else Inr (total_images, st))))))))))))"

fun process_rows :: "(string \<Rightarrow> string) \<Rightarrow> json list \<Rightarrow> int option \<Rightarrow> image_store \<Rightarrow> error + (int option \<times> image_store)" where
  "process_rows lower [] total_images st = Inr (total_images, st)"
| "process_rows lower (row # rows) total_images st =
     bind_err (process_row lower row total_images st) (\<lambda>(total_images', st').
       process_rows lower rows total_images' st')"

definition process_response_json :: "(string \<Rightarrow> string) \<Rightarrow> json \<Rightarrow> image_store \<Rightarrow> error + (int option \<times> image_store)" where
  "process_response_json lower response_json st =
     bind_err (py_get response_json ''response'' (JObj [])) (\<lambda>response.
     bind_err (py_get response ''rows'' (JArr [])) (\<lambda>rows.
     bind_err (py_iter rows) (\<lambda>row_list.
       process_rows lower row_list None st)))"

section \<open>Query parameters\<close>

text \<open>
  \<open>DEFAULT_PARAMS\<close> is one dict object of the module, shared by every call that does not
  pass its own, and \<open>_build_query_params\<close> copies and then updates a dict in place. Dict
  objects that are mutated live in a store: a reference is a number, \<open>cells\<close> holds the
  dict a reference points to, and the references below \<open>next_ref\<close> are the allocated
  ones.
\<close>

record heap =
  cells :: "nat \<Rightarrow> pydict"
  next_ref :: nat

text \<open>\<open>d.copy()\<close>: a new dict object with the same items.\<close>

definition dict_copy :: "nat \<Rightarrow> heap \<Rightarrow> nat \<times> heap" where
  "dict_copy r h =
     (next_ref h, h\<lparr>cells := (cells h)(next_ref h := cells h r), next_ref := Suc (next_ref h)\<rparr>)"

text \<open>\<open>d.update(k1=v1, k2=v2)\<close> on the object behind a reference.\<close>

definition heap_dict_update :: "nat \<Rightarrow> (string \<times> json) list \<Rightarrow> heap \<Rightarrow> heap" where
  "heap_dict_update r kvs h =
     h\<lparr>cells := (cells h)(r := fold (\<lambda>kv d. dict_update (fst kv) (snd kv) d) kvs (cells h r))\<rparr>"

definition DEFAULT_PARAMS :: nat where
  "DEFAULT_PARAMS = 0"

text \<open>The store after the module has been loaded: \<open>DEFAULT_PARAMS\<close> is its only dict.
  \<open>api_key\<close> is what \<open>os.getenv\<close> returned, a string or \<open>None\<close>.\<close>

definition module_heap :: "json \<Rightarrow> heap" where
  "module_heap api_key =
     \<lparr>cells = (\<lambda>_. [])(DEFAULT_PARAMS := [(''api_key'', api_key), (''rows'', JNum LIMIT)]),
      next_ref = 1\<rparr>"

text \<open>\<open>_build_query_params\<close>; \<open>hash_prefix\<close> and \<open>unit_code\<close> are a string or
  \<open>None\<close>. It returns the reference of the new dict.\<close>

definition build_query_params ::
  "int \<Rightarrow> string option \<Rightarrow> nat \<Rightarrow> string option \<Rightarrow> heap \<Rightarrow> nat \<times> heap" where
  "build_query_params start hash_prefix default_params unit_code h =
     (let (query_params, h1) = dict_copy default_params h;
          query_string = ''online_media_type:Images AND media_usage:CC0'';
          query_string = (case hash_prefix of
                            None \<Rightarrow> query_string
                          | Some p \<Rightarrow> query_string @ '' AND hash:'' @ p @ ''*'');
          query_string = (case unit_code of
                            None \<Rightarrow> query_string
                          | Some u \<Rightarrow> query_string @ '' AND unit_code:'' @ u);
          h2 = heap_dict_update query_params
                 [(''q'', JStr query_string), (''start'', JNum start)] h1
      in (query_params, h2))"

section \<open>The requester and the crawl of one hash prefix\<close>

text \<open>Modelled from the spec: the \<open>Requester\<close> collaborator (\<open>common.requester\<close>, not
  part of this file) "returns a decoded response or an explicit failure sentinel"; the
  sentinel is \<open>None\<close>. The model is a scripted requester: \<open>responses n endpoint params\<close>
  is what the call number \<open>n\<close> (from 0) answers, and \<open>requests\<close> is the log of the
  query parameters of the calls made so far.\<close>

record delayed_requester =
  responses :: "nat \<Rightarrow> string \<Rightarrow> pydict \<Rightarrow> json"
  requests :: "pydict list"

definition get_response_json ::
  "string \<Rightarrow> nat \<Rightarrow> pydict \<Rightarrow> delayed_requester \<Rightarrow> json \<times> delayed_requester" where
  "get_response_json endpoint retries query_params rq =
     (responses rq (length (requests rq)) endpoint query_params,
      rq\<lparr>requests := requests rq @ [query_params]\<rparr>)"

text \<open>What the script works on besides its arguments: the dict store, the requester and
  the image store.\<close>

record world =
  heap :: heap
  requester :: delayed_requester
  store :: image_store

text \<open>The \<open>else\<close> branch of the loop body of \<open>_process_hash_prefix\<close>: the new values
  of \<open>total_images\<close> and \<open>total_rows\<close>.\<close>

definition process_page ::
  "(string \<Rightarrow> string) \<Rightarrow> json \<Rightarrow> int \<Rightarrow> image_store \<Rightarrow> error + (int \<times> json \<times> image_store)" where
  "process_page lower response_json total_images st =
     bind_err (process_response_json lower response_json st) (\<lambda>(new_total, st').
     bind_err (py_get response_json ''response'' (JObj [])) (\<lambda>response.
     bind_err (py_get response ''rowCount'' (JNum 0)) (\<lambda>total_rows.
       Inr (case new_total of Some n \<Rightarrow> n | None \<Rightarrow> total_images, total_rows, st'))))"

text \<open>The \<open>while\<close> loop of \<open>_process_hash_prefix\<close>. \<open>None\<close> is a loop that never
  ends; \<open>Some (Inl e)\<close> is an exception; \<open>Some (Inr (total_rows, w))\<close> is the value
  returned and the world left behind.\<close>

partial_function (option) process_loop ::
  "(string \<Rightarrow> string) \<Rightarrow> string option \<Rightarrow> string \<Rightarrow> int \<Rightarrow> nat \<Rightarrow> int \<Rightarrow> int \<Rightarrow> json \<Rightarrow> world
     \<Rightarrow> (error + json \<times> world) option" where
  "process_loop lower hash_prefix endpoint limit retries total_images row_offset total_rows w =
     (case py_int_lt row_offset total_rows of
        Inl e \<Rightarrow> Some (Inl e)
      | Inr go \<Rightarrow>
          if \<not> go then Some (Inr (total_rows, w))
          else
            (let (query_params, h1) =
                   build_query_params row_offset hash_prefix DEFAULT_PARAMS None (heap w);
                 (response_json, rq1) =
                   get_response_json endpoint retries (cells h1 query_params) (requester w);
                 w1 = w\<lparr>heap := h1, requester := rq1\<rparr>
             in if response_json = JNull
                then process_loop lower hash_prefix endpoint limit retries
                       total_images (row_offset + limit) total_rows w1
                else (case process_page lower response_json total_images (store w1) of
                        Inl e \<Rightarrow> Some (Inl e)
                      | Inr (total_images', total_rows', st') \<Rightarrow>
                          process_loop lower hash_prefix endpoint limit retries
                            total_images' (row_offset + limit) total_rows'
                            (w1\<lparr>store := st'\<rparr>))))"

definition process_hash_prefix ::
  "(string \<Rightarrow> string) \<Rightarrow> string option \<Rightarrow> string \<Rightarrow> int \<Rightarrow> nat \<Rightarrow> world \<Rightarrow> (error + json \<times> world) option" where
  "process_hash_prefix lower hash_prefix endpoint limit retries w =
     process_loop lower hash_prefix endpoint limit retries 0 0 (JNum 1) w"

declare process_loop.simps [code]

section \<open>Vocabulary of the properties\<close>

text \<open>A field of an object; a value that is no object has no fields.\<close>

fun field :: "json \<Rightarrow> string \<Rightarrow> json option" where
  "field (JObj kvs) k = map_of kvs k"
| "field JNull k = None"
| "field (JBool b) k = None"
| "field (JNum n) k = None"
| "field (JStr s) k = None"
| "field (JArr xs) k = None"

text \<open>A field is well-typed for \<open>.lower()\<close> when it is missing or a string.\<close>

definition str_or_missing :: "json \<Rightarrow> string \<Rightarrow> bool" where
  "str_or_missing e k = (case field e k of None \<Rightarrow> True | Some (JStr s) \<Rightarrow> True | Some _ \<Rightarrow> False)"

definition lowered_field :: "(string \<Rightarrow> string) \<Rightarrow> json \<Rightarrow> string \<Rightarrow> string option" where
  "lowered_field lower e k = (case field e k of Some (JStr s) \<Rightarrow> Some (str_lower lower s) | _ \<Rightarrow> None)"

definition content_of :: "json \<Rightarrow> json" where
  "content_of e = (case field e ''content'' of Some c \<Rightarrow> c | None \<Rightarrow> JNull)"

text \<open>The priority rank of a name entry of the free text: that of its lower-cased
  label in the table, if it is an object with such a label.\<close>

definition role_rank :: "(string \<Rightarrow> string) \<Rightarrow> (string \<times> int) list \<Rightarrow> json \<Rightarrow> int option" where
  "role_rank lower creator_types e =
     (case lowered_field lower e ''label'' of Some l \<Rightarrow> map_of creator_types l | None \<Rightarrow> None)"

text \<open>A name entry of the free text qualifies when it is an object with a recognised
  creator role and non-empty content.\<close>

definition is_creator_entry :: "(string \<Rightarrow> string) \<Rightarrow> (string \<times> int) list \<Rightarrow> json \<Rightarrow> bool" where
  "is_creator_entry lower creator_types e \<longleftrightarrow>
     role_rank lower creator_types e \<noteq> None \<and> py_truthy (content_of e)"

definition is_personal_main :: "(string \<Rightarrow> string) \<Rightarrow> json \<Rightarrow> bool" where
  "is_personal_main lower e \<longleftrightarrow>
     lowered_field lower e ''type'' = Some ''personal_main'' \<and> py_truthy (content_of e)"

text \<open>A media entry qualifies when its type is \<open>Images\<close> and the access of its usage
  is \<open>CC0\<close>.\<close>

definition usage_access :: "json \<Rightarrow> json option" where
  "usage_access e = (case field e ''usage'' of Some u \<Rightarrow> field u ''access'' | None \<Rightarrow> None)"

definition qualifies :: "json \<Rightarrow> bool" where
  "qualifies e \<longleftrightarrow> field e ''type'' = Some (JStr ''Images'') \<and> usage_access e = Some (JStr ''CC0'')"

definition or_none :: "json option \<Rightarrow> json" where
  "or_none v = (case v of Some x \<Rightarrow> x | None \<Rightarrow> JNull)"

text \<open>The record a qualifying media entry gives, with the values shared by its row.\<close>

definition record_of ::
  "json \<Rightarrow> json \<Rightarrow> json \<Rightarrow> pydict \<Rightarrow> json \<Rightarrow> json \<Rightarrow> image_record" where
  "record_of flu ttl crt md tags e =
     \<lparr>foreign_landing_url = flu, image_url = or_none (field e ''content''),
      thumbnail_url = or_none (field e ''thumbnail''), license_url = ZERO_URL,
      foreign_identifier = or_none (field e ''idsId''), title = ttl, creator = crt,
      meta_data = md, raw_tags = tags\<rparr>"

text \<open>A media entry the loop of \<open>_process_image_list\<close> can look at: an object whose
  usage, if its type is \<open>Images\<close>, is missing or an object.\<close>

definition media_entry_ok :: "json \<Rightarrow> bool" where
  "media_entry_ok e \<longleftrightarrow>
     is_dict e \<and>
     (field e ''type'' = Some (JStr ''Images'') \<longrightarrow>
        (case field e ''usage'' of None \<Rightarrow> True | Some u \<Rightarrow> is_dict u))"

text \<open>Notes of the free text: the labels that feed the description, and the text a
  note adds (one space, then its content).\<close>

definition is_description_note :: "json \<Rightarrow> bool" where
  "is_description_note n \<longleftrightarrow>
     field n ''label'' \<in> {Some (JStr ''Description''), Some (JStr ''Summary''), Some (JStr ''Caption'')}"

definition is_label_text_note :: "json \<Rightarrow> bool" where
  "is_label_text_note n \<longleftrightarrow> field n ''label'' = Some (JStr ''Label Text'')"

definition note_content :: "json \<Rightarrow> string" where
  "note_content n = (case field n ''content'' of Some (JStr s) \<Rightarrow> s | _ \<Rightarrow> [])"

definition spaced :: "json list \<Rightarrow> string" where
  "spaced ns = concat (map (\<lambda>n. '' '' @ note_content n) ns)"

text \<open>A note the loop of \<open>_extract_meta_data\<close> can look at: an object whose content,
  if its label is one of the four, is missing or a string.\<close>

definition note_ok :: "json \<Rightarrow> bool" where
  "note_ok n \<longleftrightarrow>
     is_dict n \<and> (is_description_note n \<or> is_label_text_note n \<longrightarrow> str_or_missing n ''content'')"

text \<open>"Space-joined", as the words say: the strings with one space between
  neighbours.\<close>

fun space_join :: "string list \<Rightarrow> string" where
  "space_join [] = []"
| "space_join [s] = s"
| "space_join (s # t # ss) = s @ '' '' @ space_join (t # ss)"

text \<open>An array field of the indexed-structured attributes: missing, or a list.\<close>

definition array_field :: "json \<Rightarrow> string \<Rightarrow> json list option" where
  "array_field e k =
     (case field e k of None \<Rightarrow> Some [] | Some (JArr xs) \<Rightarrow> Some xs | Some _ \<Rightarrow> None)"

text \<open>Observations of a crawl: the \<open>start\<close> parameters of the requests made, the
  value returned.\<close>

definition requested_offsets :: "world \<Rightarrow> json option list" where
  "requested_offsets w = map (\<lambda>q. map_of q ''start'') (requests (requester w))"

definition returned :: "(error + json \<times> world) option \<Rightarrow> (error + json) option" where
  "returned r = map_option (map_sum id fst) r"

definition offsets_requested :: "(error + json \<times> world) option \<Rightarrow> json option list" where
  "offsets_requested r =
     (case r of Some (Inr (v, w)) \<Rightarrow> requested_offsets w | _ \<Rightarrow> [])"

text \<open>A page that reports \<open>R\<close> rows and whose rows are processed without an
  exception.\<close>

definition page_reports :: "(string \<Rightarrow> string) \<Rightarrow> int \<Rightarrow> json \<Rightarrow> bool" where
  "page_reports lower R page \<longleftrightarrow>
     (\<forall>total_images st. \<exists>total_images' st'.
        process_page lower page total_images st = Inr (total_images', JNum R, st'))"

text \<open>The number of requests of a crawl whose pages report \<open>R\<close> rows: one for
  each multiple of the limit below \<open>R\<close>, and one in any case.\<close>

definition sweep_steps :: "int \<Rightarrow> int \<Rightarrow> nat" where
  "sweep_steps limit R = max 1 (nat ((R + limit - 1) div limit))"

text \<open>Worlds for the examples: the module's store, nothing requested or stored yet, and
  a requester that always fails, or one that always answers with the same page.\<close>

definition always_failing :: "nat \<Rightarrow> string \<Rightarrow> pydict \<Rightarrow> json" where
  "always_failing n endpoint params = JNull"

definition page_of :: "int \<Rightarrow> json" where
  "page_of R = JObj [(''response'', JObj [(''rowCount'', JNum R), (''rows'', JArr [])])]"

definition always_page :: "json \<Rightarrow> nat \<Rightarrow> string \<Rightarrow> pydict \<Rightarrow> json" where
  "always_page page n endpoint params = page"

definition fresh_world :: "(nat \<Rightarrow> string \<Rightarrow> pydict \<Rightarrow> json) \<Rightarrow> world" where
  "fresh_world script =
     \<lparr>heap = module_heap JNull,
      requester = \<lparr>responses = script, requests = []\<rparr>,
      store = \<lparr>items = []\<rparr>\<rparr>"

text \<open>The words of the pagination property: the first multiple of the limit that is at
  least \<open>R\<close>, and the multiples of the limit from 0 up to a multiple \<open>M\<close>, without
  \<open>M\<close> and with it.\<close>

definition first_multiple_ge :: "int \<Rightarrow> int \<Rightarrow> int" where
  "first_multiple_ge limit R = ((R + limit - 1) div limit) * limit"

definition multiples_before :: "int \<Rightarrow> int \<Rightarrow> json option list" where
  "multiples_before limit M = map (\<lambda>k. Some (JNum (int k * limit))) [0 ..< nat (M div limit)]"

definition multiples_through :: "int \<Rightarrow> int \<Rightarrow> json option list" where
  "multiples_through limit M = multiples_before limit M @ [Some (JNum M)]"

text \<open>What \<open>str.lower\<close> does to a string of ASCII characters: the letters \<open>A\<close>
  to \<open>Z\<close> change. It stands in for the language's function in the examples, whose
  strings are all ASCII; no property is proved of it alone.\<close>

definition ascii_lower_char :: "char \<Rightarrow> char" where
  "ascii_lower_char c =
     (case map_of (zip ''ABCDEFGHIJKLMNOPQRSTUVWXYZ'' ''abcdefghijklmnopqrstuvwxyz'') c of
        Some l \<Rightarrow> l
      | None \<Rightarrow> c)"

definition ascii_lower :: "string \<Rightarrow> string" where
  "ascii_lower s = map ascii_lower_char s"

text \<open>Rows for the examples of creator resolution.\<close>

definition publisher_entry :: json where
  "publisher_entry = JObj [(''label'', JStr ''Publisher''), (''content'', JStr ''PubCo'')]"

definition creator_entry :: json where
  "creator_entry = JObj [(''label'', JStr ''Creator''), (''content'', JStr ''ArtistX'')]"

definition freetext_publisher_creator :: json where
  "freetext_publisher_creator =
     JObj [(''name'', JArr [publisher_entry, JStr ''Smithsonian'', creator_entry])]"

definition indexed_jane :: json where
  "indexed_jane =
     JObj [(''name'', JArr [JStr ''Doe, John'',
             JObj [(''type'', JStr ''personal_main''), (''content'', JStr ''Jane'')]])]"

text \<open>A row every read of which finds what it can work on. \<open>get_or e k d\<close> is what
  \<open>e.get(k, d)\<close> gives on an object; a value is \<open>iterable_with P\<close> when a \<open>for\<close>
  loop can run over it and meets only elements with \<open>P\<close>. In a well-formed row the
  content, the three attribute groups and the online media are objects where present
  (the free text must be present), the name lists hold anything, but as objects only
  ones whose label or type is a string or missing, the notes and the media entries are as
  their loops need them, and the four tag fields are arrays.\<close>

definition get_or :: "json \<Rightarrow> string \<Rightarrow> json \<Rightarrow> json" where
  "get_or e k d = (case field e k of Some v \<Rightarrow> v | None \<Rightarrow> d)"

definition iterable_with :: "(json \<Rightarrow> bool) \<Rightarrow> json \<Rightarrow> bool" where
  "iterable_with P v = (case py_iter v of Inl e \<Rightarrow> False | Inr xs \<Rightarrow> list_all P xs)"

definition lowerable :: "string \<Rightarrow> json \<Rightarrow> bool" where
  "lowerable k e \<longleftrightarrow> (is_dict e \<longrightarrow> str_or_missing e k)"

definition row_ok :: "json \<Rightarrow> bool" where
  "row_ok row \<longleftrightarrow>
     is_dict row \<and>
     (let content = get_or row ''content'' (JObj []);
          dnr = get_or content ''descriptiveNonRepeating'' (JObj []);
          ist = get_or content ''indexedStructured'' (JObj []);
          freetext = get_or content ''freetext'' JNull;
          online_media = get_or dnr ''online_media'' (JObj []);
          media = get_or online_media ''media'' JNull
      in is_dict content \<and> is_dict dnr \<and> is_dict ist \<and> is_dict freetext
         \<and> is_dict online_media
         \<and> iterable_with (lowerable ''label'') (get_or freetext ''name'' (JArr []))
         \<and> iterable_with (lowerable ''type'') (get_or ist ''name'' (JArr []))
         \<and> iterable_with note_ok (get_or freetext ''notes'' (JArr []))
         \<and> array_field ist ''date'' \<noteq> None \<and> array_field ist ''object_type'' \<noteq> None
         \<and> array_field ist ''topic'' \<noteq> None \<and> array_field ist ''place'' \<noteq> None
         \<and> (media \<noteq> JNull \<longrightarrow> iterable_with media_entry_ok media))"

section \<open>Properties\<close>

subsection \<open>Evaluation rules\<close>

lemma bind_err_Inr_iff:
  "bind_err m f = Inr y \<longleftrightarrow> (\<exists>x. m = Inr x \<and> f x = Inr y)"
  by (cases m) simp_all

lemma str_lower_Nil [simp]: "str_lower lower [] = []"
  by (simp add: str_lower_def)

lemma py_get_dict [simp]: "is_dict e \<Longrightarrow> py_get e k d = Inr (case field e k of Some v \<Rightarrow> v | None \<Rightarrow> d)"
  by (cases e) simp_all

text \<open>Iterating a string gives its characters, not its bytes.\<close>

lemma py_iter_string:
  "py_iter (JStr [CHR ''M'', CHR 0xC3, CHR 0xA9, CHR ''x'']) =
   Inr [JStr [CHR ''M''], JStr [CHR 0xC3, CHR 0xA9], JStr [CHR ''x'']]"
  by (simp add: is_continuation_def)

subsection \<open>A row without free text\<close>

lemma get_creator_no_freetext:
  "get_creator lower indexed_structured JNull creator_types = Inl AttributeError"
  by (simp add: get_creator_def)

lemma get_foreign_landing_url_error:
  "get_foreign_landing_url d = Inl e \<Longrightarrow> e = AttributeError"
  by (cases d) (auto simp: get_foreign_landing_url_def split: if_splits)

text \<open>
  A row whose content is an object without the key \<open>freetext\<close> (also a row without
  \<open>content\<close>, whose content defaults to the empty object) raises: for it
  \<open>content.get('freetext')\<close> is \<open>None\<close>, unlike its two neighbours, which default
  to an empty object, and \<open>_get_creator\<close> calls \<open>.get\<close> on it.
\<close>

lemma process_row_without_freetext_raises:
  assumes "py_get row ''content'' (JObj []) = Inr content"
    and "is_dict content"
    and "field content ''freetext'' = None"
  shows "process_row lower row total_images st = Inl AttributeError"
proof -
  from assms(1) have row: "is_dict row" by (cases row) simp_all
  obtain dnr where dnr: "py_get content ''descriptiveNonRepeating'' (JObj []) = Inr dnr"
    using assms(2) by simp
  show ?thesis
  proof (cases "get_foreign_landing_url dnr")
    case (Inl e)
    then have "e = AttributeError" by (rule get_foreign_landing_url_error)
    with Inl show ?thesis
      using assms row dnr by (simp add: process_row_def)
  next
    case (Inr url)
    then show ?thesis
      using assms row dnr by (simp add: process_row_def get_creator_no_freetext)
  qed
qed

text \<open>The same through \<open>_process_response_json\<close>, on a page with one such row.\<close>

lemma process_response_json_without_freetext:
  "process_response_json lower
     (JObj [(''response'', JObj [(''rowCount'', JNum 1), (''rows'', JArr
        [JObj [(''title'', JStr ''T''), (''content'', JObj
           [(''descriptiveNonRepeating'', JObj [(''guid'', JStr ''g'')]),
            (''indexedStructured'', JObj [])])]])])])
     st = Inl AttributeError"
  by (simp add: process_response_json_def process_row_def get_foreign_landing_url_def
      get_creator_def)

subsection \<open>The crawl of one hash prefix\<close>

text \<open>One turn of the loop, by its three outcomes.\<close>

lemma process_loop_stop:
  "py_int_lt ro tr = Inr False \<Longrightarrow>
   process_loop lower hp ep limit retries ti ro tr w = Some (Inr (tr, w))"
  by (subst process_loop.simps) simp

lemma process_loop_raise:
  "py_int_lt ro tr = Inl e \<Longrightarrow>
   process_loop lower hp ep limit retries ti ro tr w = Some (Inl e)"
  by (subst process_loop.simps) simp

lemma process_loop_fail:
  assumes "py_int_lt ro tr = Inr True"
    and "build_query_params ro hp DEFAULT_PARAMS None (heap w) = (qp, h1)"
    and "get_response_json ep retries (cells h1 qp) (requester w) = (JNull, rq1)"
  shows "process_loop lower hp ep limit retries ti ro tr w =
         process_loop lower hp ep limit retries ti (ro + limit) tr (w\<lparr>heap := h1, requester := rq1\<rparr>)"
  by (subst process_loop.simps) (simp add: assms)

lemma process_loop_page:
  assumes "py_int_lt ro tr = Inr True"
    and "build_query_params ro hp DEFAULT_PARAMS None (heap w) = (qp, h1)"
    and "get_response_json ep retries (cells h1 qp) (requester w) = (page, rq1)"
    and "page \<noteq> JNull"
    and "process_page lower page ti (store w) = Inr (ti', tr', st')"
  shows "process_loop lower hp ep limit retries ti ro tr w =
         process_loop lower hp ep limit retries ti' (ro + limit) tr'
           (w\<lparr>heap := h1, requester := rq1, store := st'\<rparr>)"
  by (subst process_loop.simps) (simp add: assms)

lemma build_query_params_start:
  "build_query_params ro hp dp uc h = (qp, h1) \<Longrightarrow> map_of (cells h1 qp) ''start'' = Some (JNum ro)"
  by (auto simp: build_query_params_def dict_copy_def heap_dict_update_def dict_update_def
      update_conv' Let_def)

lemma get_response_json_requests:
  "get_response_json ep retries q rq = (p, rq1) \<Longrightarrow>
   requests rq1 = requests rq @ [q] \<and> responses rq1 = responses rq
   \<and> p = responses rq (length (requests rq)) ep q"
  by (auto simp: get_response_json_def)

text \<open>
  C2, as the code has it. The statement \<open>row_offset += limit\<close> is the last of the loop
  body, after the \<open>if\<close>/\<open>else\<close>, so a failed request moves the offset on as a page
  does. With a positive limit and a requester that fails every time, the first request (at
  offset 0) fails, the offset becomes \<open>limit\<close>, which is not below the assumed row
  count 1, and the loop ends: one request, the value 1 returned, nothing stored.
\<close>

theorem all_failures_one_request:
  assumes "0 < limit"
    and "\<forall>n e q. responses (requester w) n e q = JNull"
  shows "\<exists>w'. process_hash_prefix lower hash_prefix endpoint limit retries w = Some (Inr (JNum 1, w'))
           \<and> requested_offsets w' = requested_offsets w @ [Some (JNum 0)]
           \<and> store w' = store w"
proof -
  obtain qp h1 where b: "build_query_params 0 hash_prefix DEFAULT_PARAMS None (heap w) = (qp, h1)"
    by (cases "build_query_params 0 hash_prefix DEFAULT_PARAMS None (heap w)")
  obtain p rq1 where g: "get_response_json endpoint retries (cells h1 qp) (requester w) = (p, rq1)"
    by (cases "get_response_json endpoint retries (cells h1 qp) (requester w)")
  from g assms(2) have p: "p = JNull" and rq1: "requests rq1 = requests (requester w) @ [cells h1 qp]"
    by (auto dest: get_response_json_requests)
  let ?w1 = "w\<lparr>heap := h1, requester := rq1\<rparr>"
  have "process_loop lower hash_prefix endpoint limit retries 0 0 (JNum 1) w =
        process_loop lower hash_prefix endpoint limit retries 0 (0 + limit) (JNum 1) ?w1"
    using b g p by (intro process_loop_fail) simp_all
  also have "\<dots> = Some (Inr (JNum 1, ?w1))"
    using assms(1) by (intro process_loop_stop) simp
  finally have "process_hash_prefix lower hash_prefix endpoint limit retries w = Some (Inr (JNum 1, ?w1))"
    by (simp add: process_hash_prefix_def)
  moreover have "requested_offsets ?w1 = requested_offsets w @ [Some (JNum 0)]"
    using rq1 build_query_params_start [OF b] by (simp add: requested_offsets_def)
  ultimately show ?thesis by auto
qed

theorem all_failures_one_request_witness:
  "(0::int) < LIMIT
   \<and> (\<forall>n e q. responses (requester (fresh_world always_failing)) n e q = JNull)
   \<and> (\<exists>w'. process_hash_prefix ascii_lower (Some ''00'') SEARCH_ENDPOINT LIMIT RETRIES (fresh_world always_failing)
              = Some (Inr (JNum 1, w'))
           \<and> requested_offsets w' = requested_offsets (fresh_world always_failing) @ [Some (JNum 0)]
           \<and> store w' = store (fresh_world always_failing))"
  using all_failures_one_request
          [of LIMIT "fresh_world always_failing" ascii_lower "Some ''00''" SEARCH_ENDPOINT
              RETRIES]
  by (simp add: LIMIT_def fresh_world_def always_failing_def)

text \<open>So the loop of a shard whose every request fails does end; with the module's own
  limit and retries the call returns 1 after one request.\<close>

theorem persistent_failure_terminates_counterexample:
  "returned (process_hash_prefix ascii_lower (Some ''00'') SEARCH_ENDPOINT LIMIT RETRIES
      (fresh_world always_failing)) = Some (Inr (JNum 1))
   \<and> offsets_requested (process_hash_prefix ascii_lower (Some ''00'') SEARCH_ENDPOINT LIMIT RETRIES
      (fresh_world always_failing)) = [Some (JNum 0)]"
  by (simp add: process_hash_prefix_def process_loop.simps returned_def offsets_requested_def
      requested_offsets_def fresh_world_def always_failing_def module_heap_def
      build_query_params_def dict_copy_def heap_dict_update_def dict_update_def
      get_response_json_def DEFAULT_PARAMS_def LIMIT_def Let_def)

text \<open>Arithmetic of the number of turns.\<close>

lemma steps_zero: "0 < (l::int) \<Longrightarrow> R \<le> ro \<Longrightarrow> nat ((R - ro + l - 1) div l) = 0"
  using pos_imp_zdiv_pos_iff [of l "R - ro + l - 1"] by simp

lemma steps_Suc:
  assumes "0 < (l::int)" and "ro < R"
  shows "nat ((R - ro + l - 1) div l) = Suc (nat ((R - (ro + l) + l - 1) div l))"
proof -
  have "(R - ro + l - 1) div l = (R - ro - 1 + l) div l" by (simp add: algebra_simps)
  also have "\<dots> = (R - ro - 1) div l + 1" using assms(1) by (intro div_add_self2) simp
  finally have eq: "(R - ro + l - 1) div l = (R - ro - 1) div l + 1" .
  have "0 \<le> (R - ro - 1) div l"
    using assms by (simp add: pos_imp_zdiv_nonneg_iff)
  moreover have "R - (ro + l) + l - 1 = R - ro - 1" by simp
  ultimately show ?thesis using eq by simp
qed

lemma offsets_Suc:
  "map (\<lambda>k. Some (JNum (ro + int k * l))) [0 ..< Suc m] =
   Some (JNum ro) # map (\<lambda>k. Some (JNum (ro + l + int k * l))) [0 ..< m]"
proof -
  have "[0 ..< Suc m] = 0 # map Suc [0 ..< m]"
    by (simp add: upt_conv_Cons map_Suc_upt del: upt_Suc)
  then show ?thesis by (simp add: algebra_simps del: upt_Suc)
qed

lemma sweep_from:
  assumes lim: "0 < limit"
    and good: "\<forall>n e q. script n e q \<noteq> JNull \<longrightarrow> page_reports lower R (script n e q)"
  shows "responses (requester w) = script \<Longrightarrow>
     \<exists>w'. process_loop lower hp ep limit retries ti ro (JNum R) w = Some (Inr (JNum R, w'))
        \<and> requested_offsets w' = requested_offsets w @
             map (\<lambda>k. Some (JNum (ro + int k * limit))) [0 ..< nat ((R - ro + limit - 1) div limit)]"
proof (induction "nat (R - ro)" arbitrary: ro w ti rule: less_induct)
  case less
  show ?case
  proof (cases "ro < R")
    case False
    then have "process_loop lower hp ep limit retries ti ro (JNum R) w = Some (Inr (JNum R, w))"
      by (intro process_loop_stop) simp
    moreover have "nat ((R - ro + limit - 1) div limit) = 0"
      using lim False by (intro steps_zero) simp_all
    ultimately show ?thesis by simp
  next
    case True
    obtain qp h1 where b: "build_query_params ro hp DEFAULT_PARAMS None (heap w) = (qp, h1)"
      by (cases "build_query_params ro hp DEFAULT_PARAMS None (heap w)")
    obtain p rq1 where g: "get_response_json ep retries (cells h1 qp) (requester w) = (p, rq1)"
      by (cases "get_response_json ep retries (cells h1 qp) (requester w)")
    from g have rq1: "requests rq1 = requests (requester w) @ [cells h1 qp]"
      and rs: "responses rq1 = script"
      and p: "p = script (length (requests (requester w))) ep (cells h1 qp)"
      using less.prems by (auto dest: get_response_json_requests)
    have smaller: "nat (R - (ro + limit)) < nat (R - ro)"
      using lim True by simp
    have steps: "nat ((R - ro + limit - 1) div limit) =
                 Suc (nat ((R - (ro + limit) + limit - 1) div limit))"
      using lim True by (rule steps_Suc)
    show ?thesis
    proof (cases "p = JNull")
      case True
      let ?w1 = "w\<lparr>heap := h1, requester := rq1\<rparr>"
      have step: "process_loop lower hp ep limit retries ti ro (JNum R) w =
                  process_loop lower hp ep limit retries ti (ro + limit) (JNum R) ?w1"
        using b g True \<open>ro < R\<close> by (intro process_loop_fail) simp_all
      have "responses (requester ?w1) = script" using rs by simp
      from less.hyps [OF smaller this, of ti] obtain w' where
        w': "process_loop lower hp ep limit retries ti (ro + limit) (JNum R) ?w1 = Some (Inr (JNum R, w'))"
          "requested_offsets w' = requested_offsets ?w1 @
             map (\<lambda>k. Some (JNum (ro + limit + int k * limit)))
               [0 ..< nat ((R - (ro + limit) + limit - 1) div limit)]"
        by blast
      have "requested_offsets ?w1 = requested_offsets w @ [Some (JNum ro)]"
        using rq1 build_query_params_start [OF b] by (simp add: requested_offsets_def)
      with w' step steps show ?thesis
        by (simp add: offsets_Suc del: upt_Suc)
    next
      case False
      with good p have "page_reports lower R p" by simp
      then obtain ti' st' where pp: "process_page lower p ti (store w) = Inr (ti', JNum R, st')"
        unfolding page_reports_def by blast
      let ?w1 = "w\<lparr>heap := h1, requester := rq1, store := st'\<rparr>"
      have step: "process_loop lower hp ep limit retries ti ro (JNum R) w =
                  process_loop lower hp ep limit retries ti' (ro + limit) (JNum R) ?w1"
        using b g False pp \<open>ro < R\<close> by (intro process_loop_page) simp_all
      have "responses (requester ?w1) = script" using rs by simp
      from less.hyps [OF smaller this, of ti'] obtain w' where
        w': "process_loop lower hp ep limit retries ti' (ro + limit) (JNum R) ?w1 = Some (Inr (JNum R, w'))"
          "requested_offsets w' = requested_offsets ?w1 @
             map (\<lambda>k. Some (JNum (ro + limit + int k * limit)))
               [0 ..< nat ((R - (ro + limit) + limit - 1) div limit)]"
        by blast
      have "requested_offsets ?w1 = requested_offsets w @ [Some (JNum ro)]"
        using rq1 build_query_params_start [OF b] by (simp add: requested_offsets_def)
      with w' step steps show ?thesis
        by (simp add: offsets_Suc del: upt_Suc)
    qed
  qed
qed

lemma sweep_steps_eq: "0 < limit \<Longrightarrow> sweep_steps limit R = Suc (nat ((R - 1) div limit))"
proof -
  assume lim: "0 < limit"
  have "(R + limit - 1) div limit = (R - 1 + limit) div limit" by (simp add: algebra_simps)
  also have "\<dots> = (R - 1) div limit + 1" using lim by (intro div_add_self2) simp
  finally have eq: "(R + limit - 1) div limit = (R - 1) div limit + 1" .
  show ?thesis
  proof (cases "1 \<le> R")
    case True
    then have "0 \<le> (R - 1) div limit" using lim by (simp add: pos_imp_zdiv_nonneg_iff)
    with eq show ?thesis by (simp add: sweep_steps_def)
  next
    case False
    then have "(R - 1) div limit < 0" using lim by (simp add: pos_imp_zdiv_neg_iff)
    with eq show ?thesis by (simp add: sweep_steps_def)
  qed
qed

lemma sweep_steps_first_multiple:
  assumes "0 < limit" and "1 \<le> R"
  shows "R \<le> int (sweep_steps limit R) * limit \<and> int (sweep_steps limit R - 1) * limit < R"
proof -
  let ?q = "(R - 1) div limit"
  have q: "0 \<le> ?q" using assms by (simp add: pos_imp_zdiv_nonneg_iff)
  have n: "int (sweep_steps limit R) = ?q + 1" "int (sweep_steps limit R - 1) = ?q"
    using q assms(1) by (simp_all add: sweep_steps_eq)
  have "?q * limit + (R - 1) mod limit = R - 1" by simp
  moreover have "0 \<le> (R - 1) mod limit" "(R - 1) mod limit < limit"
    using assms(1) by simp_all
  ultimately have "?q * limit \<le> R - 1" "R - 1 < ?q * limit + limit"
    by linarith+
  then show ?thesis using n by (simp add: algebra_simps)
qed

lemma process_page_page_of:
  "process_page lower (page_of R) total_images st = Inr (total_images, JNum R, st)"
  by (simp add: process_page_def page_of_def process_response_json_def)

lemma page_reports_page_of: "page_reports lower R (page_of R)"
  by (simp add: page_reports_def process_page_page_of)

text \<open>
  C3, as the code has it. Let the limit be positive, let the first request succeed and let
  every page that arrives report \<open>R\<close> rows and be processed without an exception
  (requests after the first may fail). Then the crawl ends and returns \<open>R\<close>, and the
  requests it made are exactly those at the offsets \<open>k * limit\<close> for
  \<open>k < sweep_steps limit R\<close>, in this order: every multiple of the limit below
  \<open>R\<close>, and offset 0 in any case. For \<open>R \<ge> 1\<close> the offset the loop stops at,
  \<open>sweep_steps limit R * limit\<close>, is the first multiple of the limit that is at least
  \<open>R\<close>; no request is made there.
\<close>

theorem sweep_requests_multiples_below_row_count:
  assumes "0 < limit"
    and "\<forall>n e q. responses (requester w) n e q \<noteq> JNull \<longrightarrow>
           page_reports lower R (responses (requester w) n e q)"
    and "\<forall>e q. responses (requester w) (length (requests (requester w))) e q \<noteq> JNull"
  shows "\<exists>w'. process_hash_prefix lower hash_prefix endpoint limit retries w = Some (Inr (JNum R, w'))
           \<and> requested_offsets w' = requested_offsets w @
                 map (\<lambda>k. Some (JNum (int k * limit))) [0 ..< sweep_steps limit R]
           \<and> (1 \<le> R \<longrightarrow> R \<le> int (sweep_steps limit R) * limit
                          \<and> int (sweep_steps limit R - 1) * limit < R)"
proof -
  obtain qp h1 where b: "build_query_params 0 hash_prefix DEFAULT_PARAMS None (heap w) = (qp, h1)"
    by (cases "build_query_params 0 hash_prefix DEFAULT_PARAMS None (heap w)")
  obtain p rq1 where g: "get_response_json endpoint retries (cells h1 qp) (requester w) = (p, rq1)"
    by (cases "get_response_json endpoint retries (cells h1 qp) (requester w)")
  from g have rq1: "requests rq1 = requests (requester w) @ [cells h1 qp]"
    and rs: "responses rq1 = responses (requester w)"
    and p: "p = responses (requester w) (length (requests (requester w))) endpoint (cells h1 qp)"
    by (auto dest: get_response_json_requests)
  from p assms(3) have nonnull: "p \<noteq> JNull" by simp
  with p assms(2) have "page_reports lower R p" by simp
  then obtain ti' st' where pp: "process_page lower p 0 (store w) = Inr (ti', JNum R, st')"
    unfolding page_reports_def by blast
  let ?w1 = "w\<lparr>heap := h1, requester := rq1, store := st'\<rparr>"
  have first: "process_loop lower hash_prefix endpoint limit retries 0 0 (JNum 1) w =
               process_loop lower hash_prefix endpoint limit retries ti' (0 + limit) (JNum R) ?w1"
    using b g nonnull pp by (intro process_loop_page) simp_all
  have "responses (requester ?w1) = responses (requester w)" using rs by simp
  from sweep_from [OF assms(1) assms(2) this, of hash_prefix endpoint retries ti' "0 + limit"]
  obtain w' where
    w': "process_loop lower hash_prefix endpoint limit retries ti' (0 + limit) (JNum R) ?w1
           = Some (Inr (JNum R, w'))"
      "requested_offsets w' = requested_offsets ?w1 @
         map (\<lambda>k. Some (JNum (0 + limit + int k * limit)))
           [0 ..< nat ((R - (0 + limit) + limit - 1) div limit)]"
    by blast
  have w1: "requested_offsets ?w1 = requested_offsets w @ [Some (JNum 0)]"
    using rq1 build_query_params_start [OF b] by (simp add: requested_offsets_def)
  have "requested_offsets w' = requested_offsets w @
          map (\<lambda>k. Some (JNum (0 + int k * limit))) [0 ..< Suc (nat ((R - 1) div limit))]"
    unfolding offsets_Suc using w'(2) w1 by simp
  then have "requested_offsets w' = requested_offsets w @
          map (\<lambda>k. Some (JNum (int k * limit))) [0 ..< sweep_steps limit R]"
    using assms(1) by (simp add: sweep_steps_eq del: upt_Suc)
  moreover have "process_hash_prefix lower hash_prefix endpoint limit retries w = Some (Inr (JNum R, w'))"
    using first w'(1) by (simp add: process_hash_prefix_def)
  ultimately show ?thesis
    using sweep_steps_first_multiple [OF assms(1)] by blast
qed

theorem sweep_requests_multiples_below_row_count_witness:
  "(0::int) < LIMIT
   \<and> page_reports ascii_lower 2500 (page_of 2500)
   \<and> (\<forall>e q. responses (requester (fresh_world (always_page (page_of 2500))))
          (length (requests (requester (fresh_world (always_page (page_of 2500)))))) e q \<noteq> JNull)
   \<and> (\<exists>w'. process_hash_prefix ascii_lower (Some ''00'') SEARCH_ENDPOINT LIMIT RETRIES
                (fresh_world (always_page (page_of 2500))) = Some (Inr (JNum 2500, w'))
           \<and> requested_offsets w' = [Some (JNum 0), Some (JNum 1000), Some (JNum 2000)])
   \<and> (2500::int) \<le> 3 * LIMIT \<and> 2 * LIMIT < (2500::int)"
proof -
  have steps: "sweep_steps 1000 2500 = 3"
    by (simp add: sweep_steps_def)
  have upt3: "[0 ..< 3] = [0, 1, 2::nat]"
    by (simp add: upt_rec)
  have w: "responses (requester (fresh_world (always_page (page_of 2500)))) = always_page (page_of 2500)"
    "requested_offsets (fresh_world (always_page (page_of 2500))) = []"
    by (simp_all add: fresh_world_def requested_offsets_def)
  have nn: "page_of 2500 \<noteq> JNull" by (simp add: page_of_def)
  show ?thesis
    using sweep_requests_multiples_below_row_count
            [of LIMIT "fresh_world (always_page (page_of 2500))" ascii_lower 2500
                "Some ''00''" SEARCH_ENDPOINT RETRIES]
    by (simp add: w nn steps upt3 always_page_def page_reports_page_of LIMIT_def)
qed

text \<open>The offsets requested are not "the multiples up to the first multiple that is at
  least \<open>R\<close>" for every \<open>R\<close>, whichever way "up to" is read. For \<open>R = 0\<close> that
  multiple is 0, and the crawl requests offset 0 all the same (the assumed row count 1
  forces one request) and stops at 1000. For \<open>R = 1500\<close> it is 2000, and the crawl
  stops there without requesting it.\<close>

theorem sweep_offsets_counterexample:
  "offsets_requested (process_hash_prefix ascii_lower (Some ''00'') SEARCH_ENDPOINT LIMIT RETRIES
      (fresh_world (always_page (page_of 0)))) = [Some (JNum 0)]
   \<and> multiples_before LIMIT (first_multiple_ge LIMIT 0) = []
   \<and> offsets_requested (process_hash_prefix ascii_lower (Some ''00'') SEARCH_ENDPOINT LIMIT RETRIES
      (fresh_world (always_page (page_of 1500)))) = [Some (JNum 0), Some (JNum 1000)]
   \<and> multiples_through LIMIT (first_multiple_ge LIMIT 1500)
       = [Some (JNum 0), Some (JNum 1000), Some (JNum 2000)]"
proof -
  have run0: "offsets_requested (process_hash_prefix ascii_lower (Some ''00'') SEARCH_ENDPOINT LIMIT RETRIES
      (fresh_world (always_page (page_of 0)))) = [Some (JNum 0)]"
    by (simp add: process_hash_prefix_def process_loop.simps offsets_requested_def
        requested_offsets_def fresh_world_def always_page_def module_heap_def
        build_query_params_def dict_copy_def heap_dict_update_def dict_update_def
        get_response_json_def DEFAULT_PARAMS_def LIMIT_def Let_def page_of_def
        process_page_def process_response_json_def)
  have run1500: "offsets_requested (process_hash_prefix ascii_lower (Some ''00'') SEARCH_ENDPOINT LIMIT RETRIES
      (fresh_world (always_page (page_of 1500)))) = [Some (JNum 0), Some (JNum 1000)]"
    by (simp add: process_hash_prefix_def process_loop.simps offsets_requested_def
        requested_offsets_def fresh_world_def always_page_def module_heap_def
        build_query_params_def dict_copy_def heap_dict_update_def dict_update_def
        get_response_json_def DEFAULT_PARAMS_def LIMIT_def Let_def page_of_def
        process_page_def process_response_json_def)
  have "multiples_before LIMIT (first_multiple_ge LIMIT 0) = []"
    by (simp add: multiples_before_def first_multiple_ge_def LIMIT_def)
  moreover have "multiples_through LIMIT (first_multiple_ge LIMIT 1500)
       = [Some (JNum 0), Some (JNum 1000), Some (JNum 2000)]"
    by (simp add: multiples_through_def multiples_before_def first_multiple_ge_def LIMIT_def upt_rec)
  ultimately show ?thesis using run0 run1500 by simp
qed

subsection \<open>Hash prefixes\<close>

lemma hex_val_hex_digits: "\<forall>d \<in> set [0 ..< 16]. hex_val (hex_digit d) = Some d"
  by code_simp

lemma hex_val_hex_digit: "d < 16 \<Longrightarrow> hex_val (hex_digit d) = Some d"
  using hex_val_hex_digits by simp

lemma hex_val_0: "hex_val (CHR ''0'') = Some 0"
  by (simp add: hex_val_def upt_rec)

lemma hex_val_f: "hex_val (CHR ''f'') = Some 15"
  by (simp add: hex_val_def upt_rec)

lemma hex_digit_in: "d < 16 \<Longrightarrow> hex_digit d \<in> set ''0123456789abcdef''"
  unfolding hex_digit_def by (rule nth_mem) simp

lemma int16_acc_append:
  "int16_acc a (xs @ ys) = (case int16_acc a xs of None \<Rightarrow> None | Some b \<Rightarrow> int16_acc b ys)"
  by (induction xs arbitrary: a) (simp_all split: option.splits)

lemma int16_acc_to_hex: "int16_acc 0 (to_hex n) = Some n"
proof (induction n rule: to_hex.induct)
  case (1 n)
  show ?case
  proof (cases "n < 16")
    case True
    then show ?thesis by (subst to_hex.simps) (simp add: hex_val_hex_digit)
  next
    case False
    with "1.IH" have "int16_acc 0 (to_hex (n div 16)) = Some (n div 16)" by simp
    with False show ?thesis
      by (subst to_hex.simps) (simp add: int16_acc_append hex_val_hex_digit)
  qed
qed

lemma to_hex_chars: "set (to_hex n) \<subseteq> set ''0123456789abcdef''"
proof (induction n rule: to_hex.induct)
  case (1 n)
  show ?case
  proof (cases "n < 16")
    case True
    then show ?thesis using hex_digit_in [of n] by (subst to_hex.simps) simp
  next
    case False
    with "1.IH" have "set (to_hex (n div 16)) \<subseteq> set ''0123456789abcdef''" by simp
    with False show ?thesis
      using hex_digit_in [of "n mod 16"] by (subst to_hex.simps) simp
  qed
qed

lemma to_hex_nonempty: "to_hex n \<noteq> []"
  by (subst to_hex.simps) simp

lemma to_hex_length: "0 < L \<Longrightarrow> n < 16 ^ L \<Longrightarrow> length (to_hex n) \<le> L"
proof (induction n arbitrary: L rule: to_hex.induct)
  case (1 n)
  show ?case
  proof (cases "n < 16")
    case True
    then show ?thesis using "1.prems" by (subst to_hex.simps) simp
  next
    case False
    then obtain L' where L: "L = Suc L'" using "1.prems" by (cases L) simp_all
    with "1.prems" False have "0 < L'" by (cases L') simp_all
    moreover from "1.prems" L have "n div 16 < 16 ^ L'"
      by (simp add: less_mult_imp_div_less mult.commute)
    ultimately have "length (to_hex (n div 16)) \<le> L'"
      using "1.IH" False by simp
    with False L show ?thesis by (subst to_hex.simps) simp
  qed
qed

lemma int16_acc_zeros: "int16_acc 0 (replicate k (CHR ''0'') @ s) = int16_acc 0 s"
  by (induction k) (simp_all add: hex_val_0)

lemma int16_acc_fs: "int16_acc a (replicate k (CHR ''f'')) = Some ((a + 1) * 16 ^ k - 1)"
proof (induction k arbitrary: a)
  case 0
  then show ?case by simp
next
  case (Suc k)
  have "int16_acc a (replicate (Suc k) (CHR ''f'')) = int16_acc (16 * a + 15) (replicate k (CHR ''f''))"
    by (simp add: hex_val_f)
  also have "\<dots> = Some ((16 * a + 15 + 1) * 16 ^ k - 1)"
    by (rule Suc.IH)
  also have "(16 * a + 15 + 1) * 16 ^ k = (a + 1) * 16 ^ Suc k"
    by (simp add: algebra_simps)
  finally show ?case .
qed

lemma py_int16_max_prefix:
  "0 < k \<Longrightarrow> py_int16 (replicate k (CHR ''f'')) = Inr (int (16 ^ k) - 1)"
  by (simp add: py_int16_def int16_acc_fs of_nat_diff)

lemma py_format_hex_props:
  assumes "0 < L" and "n < 16 ^ nat L"
  shows "length (py_format_hex L n) = nat L"
    and "set (py_format_hex L n) \<subseteq> set ''0123456789abcdef''"
    and "py_int16 (py_format_hex L n) = Inr (int n)"
proof -
  have len: "length (to_hex n) \<le> nat L"
    using assms by (intro to_hex_length) simp_all
  then show "length (py_format_hex L n) = nat L"
    by (simp add: py_format_hex_def Let_def)
  show "set (py_format_hex L n) \<subseteq> set ''0123456789abcdef''"
    using to_hex_chars [of n] by (auto simp: py_format_hex_def Let_def)
  show "py_int16 (py_format_hex L n) = Inr (int n)"
    using to_hex_nonempty [of n]
    by (simp add: py_int16_def py_format_hex_def Let_def int16_acc_zeros int16_acc_to_hex)
qed

text \<open>
  C8, as the code has it. For a prefix length \<open>L \<ge> 1\<close> the generator yields
  \<open>16 ^ L\<close> strings, all different; the string at position \<open>i\<close> has \<open>L\<close>
  characters, all of them lower-case hexadecimal digits, and reads back as the number
  \<open>i\<close>: the zero-padded numerals of \<open>0, \<dots>, 16 ^ L - 1\<close> in increasing order.
\<close>

theorem get_hash_prefixes_enumerates:
  assumes "1 \<le> L"
  shows "\<exists>xs. get_hash_prefixes L = Inr xs \<and> length xs = 16 ^ nat L \<and> distinct xs
          \<and> (\<forall>i < 16 ^ nat L. length (xs ! i) = nat L
                 \<and> set (xs ! i) \<subseteq> set ''0123456789abcdef''
                 \<and> py_int16 (xs ! i) = Inr (int i))"
proof -
  let ?xs = "map (\<lambda>h. py_format_hex L h) [0 ..< 16 ^ nat L]"
  from assms have L: "0 < nat L" "0 < L" by simp_all
  have "nat (int (16 ^ nat L) - 1 + 1) = 16 ^ nat L" by simp
  then have run: "get_hash_prefixes L = Inr ?xs"
    using L by (simp add: get_hash_prefixes_def py_int16_max_prefix del: of_nat_power)
  have each: "\<forall>i < 16 ^ nat L. length (?xs ! i) = nat L
                 \<and> set (?xs ! i) \<subseteq> set ''0123456789abcdef''
                 \<and> py_int16 (?xs ! i) = Inr (int i)"
    using py_format_hex_props [OF L(2)] by simp
  have "inj_on (\<lambda>h. py_format_hex L h) {0 ..< 16 ^ nat L}"
  proof (rule inj_onI)
    fix a b assume a: "a \<in> {0 ..< 16 ^ nat L}" and b: "b \<in> {0 ..< 16 ^ nat L}"
      and eq: "py_format_hex L a = py_format_hex L b"
    have "py_int16 (py_format_hex L a) = Inr (int a)"
      using py_format_hex_props(3) [OF L(2), of a] a by simp
    moreover have "py_int16 (py_format_hex L b) = Inr (int b)"
      using py_format_hex_props(3) [OF L(2), of b] b by simp
    moreover from eq have "py_int16 (py_format_hex L a) = py_int16 (py_format_hex L b)"
      by (rule arg_cong)
    ultimately have "Inr (int a) = (Inr (int b) :: error + int)" by (simp only:)
    then show "a = b" by simp
  qed
  then have "distinct ?xs" by (simp add: distinct_map)
  then have "length ?xs = 16 ^ nat L \<and> distinct ?xs" by simp
  with run each show ?thesis by blast
qed

theorem get_hash_prefixes_enumerates_witness:
  "(1::int) \<le> HASH_PREFIX_LENGTH
   \<and> (\<exists>xs. get_hash_prefixes HASH_PREFIX_LENGTH = Inr xs \<and> length xs = 256 \<and> distinct xs
          \<and> (\<forall>i < 256. length (xs ! i) = 2
                 \<and> set (xs ! i) \<subseteq> set ''0123456789abcdef''
                 \<and> py_int16 (xs ! i) = Inr (int i)))"
  using get_hash_prefixes_enumerates [of HASH_PREFIX_LENGTH]
  by (simp add: HASH_PREFIX_LENGTH_def)

text \<open>For \<open>L = 0\<close> there would be \<open>16 ^ 0 = 1\<close> string to yield, the empty
  one; the generator raises instead, since \<open>int('', 16)\<close> is a \<open>ValueError\<close>.\<close>

theorem get_hash_prefixes_zero_counterexample:
  "get_hash_prefixes 0 = Inl ValueError"
  by (simp add: get_hash_prefixes_def py_int16_def)

lemma get_hash_prefixes_1:
  "get_hash_prefixes 1 = Inr (map (\<lambda>c. [c]) ''0123456789abcdef'')"
  by code_simp

subsection \<open>Tags\<close>

lemma array_field_get:
  "is_dict e \<Longrightarrow> array_field e k = Some xs \<Longrightarrow> py_get e k (JArr []) = Inr (JArr xs)"
  by (auto simp: array_field_def split: option.splits json.splits)

text \<open>
  C7. For indexed-structured attributes whose fields \<open>date\<close>, \<open>object_type\<close>,
  \<open>topic\<close> and \<open>place\<close> are arrays (a missing one counts as empty), the tags are
  the four arrays joined in this order; if the result is empty the tags are \<open>None\<close>,
  not an empty list, and otherwise they are the list itself.
\<close>

theorem extract_tags_concatenates:
  assumes "is_dict indexed_structured"
    and "array_field indexed_structured ''date'' = Some date"
    and "array_field indexed_structured ''object_type'' = Some object_type"
    and "array_field indexed_structured ''topic'' = Some topic"
    and "array_field indexed_structured ''place'' = Some place"
  shows "extract_tags indexed_structured =
         Inr (if date @ object_type @ topic @ place = [] then JNull
              else JArr (date @ object_type @ topic @ place))"
  using assms by (simp add: extract_tags_def array_field_get del: py_get_dict)

theorem extract_tags_concatenates_witness:
  "is_dict (JObj [(''topic'', JArr [JStr ''Birds'']), (''date'', JArr [JStr ''1990s'']),
                  (''name'', JArr [])])
   \<and> array_field (JObj [(''topic'', JArr [JStr ''Birds'']), (''date'', JArr [JStr ''1990s'']),
                  (''name'', JArr [])]) ''date'' = Some [JStr ''1990s'']
   \<and> array_field (JObj [(''topic'', JArr [JStr ''Birds'']), (''date'', JArr [JStr ''1990s'']),
                  (''name'', JArr [])]) ''object_type'' = Some []
   \<and> array_field (JObj [(''topic'', JArr [JStr ''Birds'']), (''date'', JArr [JStr ''1990s'']),
                  (''name'', JArr [])]) ''topic'' = Some [JStr ''Birds'']
   \<and> array_field (JObj [(''topic'', JArr [JStr ''Birds'']), (''date'', JArr [JStr ''1990s'']),
                  (''name'', JArr [])]) ''place'' = Some []
   \<and> extract_tags (JObj [(''topic'', JArr [JStr ''Birds'']), (''date'', JArr [JStr ''1990s'']),
                  (''name'', JArr [])]) = Inr (JArr [JStr ''1990s'', JStr ''Birds''])"
  using extract_tags_concatenates
          [of "JObj [(''topic'', JArr [JStr ''Birds'']), (''date'', JArr [JStr ''1990s'']),
                  (''name'', JArr [])]" "[JStr ''1990s'']" "[]" "[JStr ''Birds'']" "[]"]
  by (simp add: array_field_def)

lemma extract_tags_all_empty:
  "extract_tags (JObj [(''date'', JArr []), (''place'', JArr [])]) = Inr JNull"
  by (simp add: extract_tags_def)

subsection \<open>Query parameters\<close>

lemma dict_copy_frame:
  "dict_copy r h = (q, h1) \<Longrightarrow>
   q = next_ref h \<and> next_ref h1 = Suc (next_ref h) \<and> cells h1 q = cells h r
   \<and> (\<forall>x. x \<noteq> q \<longrightarrow> cells h1 x = cells h x)"
  by (auto simp: dict_copy_def)

lemma heap_dict_update_frame:
  "next_ref (heap_dict_update q kvs h) = next_ref h
   \<and> (\<forall>x. x \<noteq> q \<longrightarrow> cells (heap_dict_update q kvs h) x = cells h x)"
  by (simp add: heap_dict_update_def)

lemma build_query_params_unfold:
  "build_query_params start hash_prefix default_params unit_code h = (query_params, h') \<Longrightarrow>
   \<exists>h1 qs. dict_copy default_params h = (query_params, h1)
      \<and> h' = heap_dict_update query_params [(''q'', JStr qs), (''start'', JNum start)] h1"
  by (auto simp: build_query_params_def Let_def split: prod.splits)

text \<open>
  C10. Building the query parameters does not touch the dict it is given as defaults: for
  an allocated \<open>default_params\<close>, after the call that dict is what it was, and so is
  every other dict allocated before; the dict returned is a new object (its reference was
  not allocated before the call, so it is not \<open>default_params\<close>), holding the
  defaults together with \<open>q\<close> and \<open>start\<close>.
\<close>

theorem build_query_params_fresh_dict:
  assumes "default_params < next_ref h"
    and "build_query_params start hash_prefix default_params unit_code h = (query_params, h')"
  shows "cells h' default_params = cells h default_params
         \<and> query_params = next_ref h \<and> query_params \<noteq> default_params
         \<and> next_ref h' = Suc (next_ref h)
         \<and> (\<forall>r < next_ref h. cells h' r = cells h r)
         \<and> map_of (cells h' query_params) ''start'' = Some (JNum start)
         \<and> (\<forall>k. k \<noteq> ''q'' \<and> k \<noteq> ''start'' \<longrightarrow>
                map_of (cells h' query_params) k = map_of (cells h default_params) k)"
proof -
  from build_query_params_unfold [OF assms(2)] obtain h1 qs where
    c: "dict_copy default_params h = (query_params, h1)"
    and h': "h' = heap_dict_update query_params [(''q'', JStr qs), (''start'', JNum start)] h1"
    by blast
  from dict_copy_frame [OF c] heap_dict_update_frame [of query_params _ h1] h' assms(1)
  have frame: "cells h' default_params = cells h default_params
         \<and> query_params = next_ref h \<and> query_params \<noteq> default_params
         \<and> next_ref h' = Suc (next_ref h)
         \<and> (\<forall>r < next_ref h. cells h' r = cells h r)"
    by auto
  from dict_copy_frame [OF c] have "cells h1 query_params = cells h default_params" by blast
  with h' have "\<forall>k. k \<noteq> ''q'' \<and> k \<noteq> ''start'' \<longrightarrow>
                map_of (cells h' query_params) k = map_of (cells h default_params) k"
    by (simp add: heap_dict_update_def dict_update_def update_conv')
  with frame show ?thesis using build_query_params_start [OF assms(2)] by simp
qed

theorem build_query_params_fresh_dict_witness:
  "DEFAULT_PARAMS < next_ref (module_heap (JStr ''KEY''))
   \<and> fst (build_query_params 2000 (Some ''ab'') DEFAULT_PARAMS None (module_heap (JStr ''KEY''))) = 1
   \<and> cells (snd (build_query_params 2000 (Some ''ab'') DEFAULT_PARAMS None
              (module_heap (JStr ''KEY'')))) DEFAULT_PARAMS
       = [(''api_key'', JStr ''KEY''), (''rows'', JNum 1000)]
   \<and> cells (snd (build_query_params 2000 (Some ''ab'') DEFAULT_PARAMS None
              (module_heap (JStr ''KEY'')))) 1
       = [(''api_key'', JStr ''KEY''), (''rows'', JNum 1000),
          (''q'', JStr ''online_media_type:Images AND media_usage:CC0 AND hash:ab*''),
          (''start'', JNum 2000)]"
proof -
  let ?r = "build_query_params 2000 (Some ''ab'') DEFAULT_PARAMS None (module_heap (JStr ''KEY''))"
  have h1: "DEFAULT_PARAMS < next_ref (module_heap (JStr ''KEY''))"
    by (simp add: DEFAULT_PARAMS_def module_heap_def)
  have h2: "?r = (fst ?r, snd ?r)" by simp
  from build_query_params_fresh_dict [OF h1 h2]
  have "cells (snd ?r) DEFAULT_PARAMS = cells (module_heap (JStr ''KEY'')) DEFAULT_PARAMS"
    and "fst ?r = next_ref (module_heap (JStr ''KEY''))"
    by simp_all
  moreover have "cells (snd ?r) 1 = [(''api_key'', JStr ''KEY''), (''rows'', JNum 1000),
          (''q'', JStr ''online_media_type:Images AND media_usage:CC0 AND hash:ab*''),
          (''start'', JNum 2000)]"
    by (simp add: build_query_params_def dict_copy_def heap_dict_update_def dict_update_def
        module_heap_def DEFAULT_PARAMS_def LIMIT_def)
  ultimately show ?thesis
    using h1 by (simp add: module_heap_def LIMIT_def)
qed

text \<open>Two queries built one after the other are two dicts, and building the second
  leaves the first as it was.\<close>

lemma build_query_params_twice:
  assumes "default_params < next_ref h"
    and "build_query_params s1 p1 default_params u1 h = (q1, h1)"
    and "build_query_params s2 p2 default_params u2 h1 = (q2, h2)"
  shows "q1 \<noteq> q2 \<and> cells h2 q1 = cells h1 q1 \<and> cells h2 default_params = cells h default_params"
proof -
  from build_query_params_unfold [OF assms(2)] obtain g1 qs1 where
    c1: "dict_copy default_params h = (q1, g1)"
    and h1: "h1 = heap_dict_update q1 [(''q'', JStr qs1), (''start'', JNum s1)] g1"
    by blast
  from build_query_params_unfold [OF assms(3)] obtain g2 qs2 where
    c2: "dict_copy default_params h1 = (q2, g2)"
    and h2: "h2 = heap_dict_update q2 [(''q'', JStr qs2), (''start'', JNum s2)] g2"
    by blast
  from dict_copy_frame [OF c1] heap_dict_update_frame [of q1 _ g1] h1 assms(1)
  have a: "q1 = next_ref h" "next_ref h1 = Suc (next_ref h)"
    "cells h1 default_params = cells h default_params"
    by auto
  from dict_copy_frame [OF c2] heap_dict_update_frame [of q2 _ g2] h2 a assms(1)
  show ?thesis by auto
qed

subsection \<open>Meta-data\<close>

lemma spaced_Nil [simp]: "spaced [] = []"
  by (simp add: spaced_def)

lemma spaced_Cons [simp]: "spaced (n # ns) = '' '' @ note_content n @ spaced ns"
  by (simp add: spaced_def)

lemma spaced_empty_iff: "spaced ns = [] \<longleftrightarrow> ns = []"
  by (cases ns) simp_all

lemma spaced_space_join: "ns \<noteq> [] \<Longrightarrow> spaced ns = '' '' @ space_join (map note_content ns)"
proof (induction ns)
  case Nil
  then show ?case by simp
next
  case (Cons n ns)
  then show ?case by (cases ns) simp_all
qed

lemma note_text:
  assumes "is_dict n" and "str_or_missing n ''content''"
  shows "bind_err (py_get n ''content'' (JStr [])) (\<lambda>c. bind_err (py_str_add '' '' c) f)
         = f ('' '' @ note_content n)"
  using assms
  by (auto simp: str_or_missing_def note_content_def split: option.splits json.splits)

lemma note_label:
  "is_dict n \<Longrightarrow> py_get n ''label'' JNull = Inr (or_none (field n ''label''))"
  by (simp add: or_none_def)

lemma or_none_eq_JStr: "or_none v = JStr s \<longleftrightarrow> v = Some (JStr s)"
  by (cases v) (auto simp: or_none_def)

lemma extract_notes_ok:
  "\<forall>n \<in> set ns. note_ok n \<Longrightarrow>
   extract_notes ns description label_texts =
     Inr (description @ spaced (filter is_description_note ns),
          label_texts @ spaced (filter is_label_text_note ns))"
proof (induction ns arbitrary: description label_texts)
  case Nil
  then show ?case by simp
next
  case (Cons n ns)
  then have d: "is_dict n" and ok: "is_description_note n \<or> is_label_text_note n \<longrightarrow> str_or_missing n ''content''"
    and rest: "\<forall>n \<in> set ns. note_ok n"
    by (simp_all add: note_ok_def)
  note IH = Cons.IH [OF rest]
  consider (desc) "is_description_note n" | (lab) "is_label_text_note n"
    | (other) "\<not> is_description_note n" "\<not> is_label_text_note n"
    by blast
  then show ?case
  proof cases
    case desc
    then have nl: "\<not> is_label_text_note n"
      by (auto simp: is_description_note_def is_label_text_note_def)
    from desc ok have c: "str_or_missing n ''content''" by simp
    from desc consider "or_none (field n ''label'') = JStr ''Description''"
      | "or_none (field n ''label'') = JStr ''Summary''"
      | "or_none (field n ''label'') = JStr ''Caption''"
      by (auto simp: is_description_note_def or_none_def)
    then show ?thesis
      by cases
        (simp_all add: note_label [OF d] note_text [OF d c] IH desc nl del: py_get_dict)
  next
    case lab
    then have nd: "\<not> is_description_note n"
      by (auto simp: is_description_note_def is_label_text_note_def)
    from lab ok have c: "str_or_missing n ''content''" by simp
    from lab have "or_none (field n ''label'') = JStr ''Label Text''"
      by (simp add: is_label_text_note_def or_none_def)
    then show ?thesis
      by (simp add: note_label [OF d] note_text [OF d c] IH lab nd del: py_get_dict)
  next
    case other
    then have "or_none (field n ''label'') \<noteq> JStr ''Description''"
      "or_none (field n ''label'') \<noteq> JStr ''Summary''"
      "or_none (field n ''label'') \<noteq> JStr ''Caption''"
      "or_none (field n ''label'') \<noteq> JStr ''Label Text''"
      by (simp_all add: is_description_note_def is_label_text_note_def or_none_eq_JStr)
    then show ?thesis
      using other by (simp add: note_label [OF d] IH del: py_get_dict)
  qed
qed

text \<open>
  C6, as the code has it. Let the notes be objects whose content, where the label is one
  of the four, is a string or missing. Each note labelled \<open>Description\<close>,
  \<open>Summary\<close> or \<open>Caption\<close> adds one space and then its content to the
  description, in the order met. So the description, when there is such a note, is one
  space followed by the contents joined by single spaces (\<open>" A B"\<close> for the contents
  \<open>A\<close> and \<open>B\<close>), and the key \<open>description\<close> is in the result exactly when
  there is such a note, which is when the accumulated string is not empty. The same holds
  for the key \<open>label_texts\<close> and the notes labelled \<open>Label Text\<close>.
\<close>

theorem extract_meta_data_texts:
  assumes "is_dict descriptive_non_repeating"
    and "py_get freetext ''notes'' (JArr []) = Inr notes"
    and "py_iter notes = Inr note_list"
    and "\<forall>n \<in> set note_list. note_ok n"
  shows "\<exists>md. extract_meta_data descriptive_non_repeating freetext = Inr md
           \<and> map_of md ''description'' =
               (if filter is_description_note note_list = [] then None
                else Some (JStr ('' '' @ space_join
                       (map note_content (filter is_description_note note_list)))))
           \<and> map_of md ''label_texts'' =
               (if filter is_label_text_note note_list = [] then None
                else Some (JStr ('' '' @ space_join
                       (map note_content (filter is_label_text_note note_list)))))"
  using assms
  by (simp add: extract_meta_data_def extract_notes_ok spaced_empty_iff spaced_space_join
      dict_update_def update_conv' Let_def)

theorem extract_meta_data_texts_witness:
  "is_dict (JObj [(''unit_code'', JStr ''NMNH'')])
   \<and> py_get (JObj [(''notes'', JArr
          [JObj [(''label'', JStr ''Description''), (''content'', JStr ''A'')],
           JObj [(''label'', JStr ''Dimensions''), (''content'', JNum 3)],
           JObj [(''label'', JStr ''Summary''), (''content'', JStr ''B'')]])]) ''notes'' (JArr [])
       = Inr (JArr
          [JObj [(''label'', JStr ''Description''), (''content'', JStr ''A'')],
           JObj [(''label'', JStr ''Dimensions''), (''content'', JNum 3)],
           JObj [(''label'', JStr ''Summary''), (''content'', JStr ''B'')]])
   \<and> (\<exists>md. extract_meta_data (JObj [(''unit_code'', JStr ''NMNH'')])
         (JObj [(''notes'', JArr
          [JObj [(''label'', JStr ''Description''), (''content'', JStr ''A'')],
           JObj [(''label'', JStr ''Dimensions''), (''content'', JNum 3)],
           JObj [(''label'', JStr ''Summary''), (''content'', JStr ''B'')]])]) = Inr md
       \<and> map_of md ''description'' = Some (JStr '' A B'')
       \<and> map_of md ''label_texts'' = None)"
  using extract_meta_data_texts
    [of "JObj [(''unit_code'', JStr ''NMNH'')]"
        "JObj [(''notes'', JArr
          [JObj [(''label'', JStr ''Description''), (''content'', JStr ''A'')],
           JObj [(''label'', JStr ''Dimensions''), (''content'', JNum 3)],
           JObj [(''label'', JStr ''Summary''), (''content'', JStr ''B'')]])]"
        "JArr
          [JObj [(''label'', JStr ''Description''), (''content'', JStr ''A'')],
           JObj [(''label'', JStr ''Dimensions''), (''content'', JNum 3)],
           JObj [(''label'', JStr ''Summary''), (''content'', JStr ''B'')]]"
        "[JObj [(''label'', JStr ''Description''), (''content'', JStr ''A'')],
           JObj [(''label'', JStr ''Dimensions''), (''content'', JNum 3)],
           JObj [(''label'', JStr ''Summary''), (''content'', JStr ''B'')]]"]
  by (simp add: note_ok_def is_description_note_def is_label_text_note_def str_or_missing_def
      note_content_def)

text \<open>The description of the notes \<open>A\<close> and \<open>B\<close> is not the space-joined
  \<open>"A B"\<close>: it starts with a space.\<close>

theorem description_leading_space_counterexample:
  "extract_meta_data (JObj [])
     (JObj [(''notes'', JArr
        [JObj [(''label'', JStr ''Description''), (''content'', JStr ''A'')],
         JObj [(''label'', JStr ''Summary''), (''content'', JStr ''B'')]])])
   = Inr [(''unit_code'', JNull), (''data_source'', JNull), (''description'', JStr '' A B'')]
   \<and> space_join [''A'', ''B''] = ''A B''"
  by (simp add: extract_meta_data_def dict_update_def)

text \<open>
  C9, as the code has it. Whenever the meta-data are produced, the keys \<open>unit_code\<close>
  and \<open>data_source\<close> are both in the mapping: each holds the value of the row's
  descriptive-non-repeating attributes if that has the key, and \<open>None\<close> otherwise.
\<close>

theorem extract_meta_data_unit_code_data_source:
  assumes "extract_meta_data descriptive_non_repeating freetext = Inr md"
  shows "is_dict descriptive_non_repeating
         \<and> map_of md ''unit_code'' = Some (or_none (field descriptive_non_repeating ''unit_code''))
         \<and> map_of md ''data_source'' = Some (or_none (field descriptive_non_repeating ''data_source''))"
proof -
  from assms obtain u d where u: "py_get descriptive_non_repeating ''unit_code'' JNull = Inr u"
    and d: "py_get descriptive_non_repeating ''data_source'' JNull = Inr d"
    and md: "map_of md ''unit_code'' = Some u" "map_of md ''data_source'' = Some d"
    by (auto simp: extract_meta_data_def bind_err_Inr_iff dict_update_def update_conv' Let_def
        split: if_splits)
  from u have dict: "is_dict descriptive_non_repeating"
    by (cases descriptive_non_repeating) simp_all
  with u d md show ?thesis by (auto simp: or_none_def split: option.splits)
qed

theorem extract_meta_data_unit_code_data_source_witness:
  "extract_meta_data (JObj [(''unit_code'', JStr ''NMNH'')]) (JObj [])
     = Inr [(''unit_code'', JStr ''NMNH''), (''data_source'', JNull)]
   \<and> is_dict (JObj [(''unit_code'', JStr ''NMNH'')])
   \<and> map_of [(''unit_code'', JStr ''NMNH''), (''data_source'', JNull)] ''unit_code''
       = Some (JStr ''NMNH'')
   \<and> map_of [(''unit_code'', JStr ''NMNH''), (''data_source'', JNull)] ''data_source''
       = Some JNull"
  using extract_meta_data_unit_code_data_source
    [of "JObj [(''unit_code'', JStr ''NMNH'')]" "JObj []"
        "[(''unit_code'', JStr ''NMNH''), (''data_source'', JNull)]"]
  by (simp add: extract_meta_data_def or_none_def)

text \<open>For a row with neither field the two keys are in the mapping all the same, with
  the value \<open>None\<close>.\<close>

theorem meta_data_keys_always_present_counterexample:
  "extract_meta_data (JObj []) (JObj []) = Inr [(''unit_code'', JNull), (''data_source'', JNull)]
   \<and> map_of [(''unit_code'', JNull), (''data_source'', JNull)] ''unit_code'' \<noteq> None
   \<and> map_of [(''unit_code'', JNull), (''data_source'', JNull)] ''data_source'' \<noteq> None"
  by (simp add: extract_meta_data_def)

subsection \<open>Media entries\<close>

lemma is_cc0_image_ok:
  "media_entry_ok e \<Longrightarrow> is_cc0_image e = Inr (qualifies e)"
  by (cases "field e ''usage''")
     (auto simp: media_entry_ok_def is_cc0_image_def qualifies_def usage_access_def
        split: option.splits)

lemma entry_fields:
  "is_dict e \<Longrightarrow> py_get e k JNull = Inr (or_none (field e k))"
  by (simp add: or_none_def)

lemma process_image_entries_ok:
  "\<forall>e \<in> set es. media_entry_ok e \<Longrightarrow>
   process_image_entries es flu ttl crt md tags lic total_images st =
     Inr (if filter qualifies es = [] then total_images
          else Some (int (length (items st)) + int (length (filter qualifies es))),
          st\<lparr>items := items st @
                map (\<lambda>e. (record_of flu ttl crt md tags e)\<lparr>license_url := lic\<rparr>)
                  (filter qualifies es)\<rparr>)"
proof (induction es arbitrary: total_images st)
  case Nil
  then show ?case by simp
next
  case (Cons e es)
  then have ok: "media_entry_ok e" and rest: "\<forall>e \<in> set es. media_entry_ok e"
    by simp_all
  from ok have d: "is_dict e" by (simp add: media_entry_ok_def)
  note IH = Cons.IH [OF rest]
  show ?case
  proof (cases "qualifies e")
    case True
    then show ?thesis
      by (simp add: is_cc0_image_ok [OF ok] entry_fields [OF d] add_item_def IH record_of_def
          del: py_get_dict)
  next
    case False
    then show ?thesis
      by (simp add: is_cc0_image_ok [OF ok] IH)
  qed
qed

text \<open>
  C5, as the code has it. Let every entry of the media list be an object whose usage, if
  its type is \<open>Images\<close>, is an object or missing. Then the call raises nothing and
  hands the store one record for each entry whose type is \<open>Images\<close> and whose usage
  access is \<open>CC0\<close>, in the order of the list, and nothing for the other entries. The
  record has the entry's \<open>idsId\<close>, \<open>content\<close> and \<open>thumbnail\<close> as identifier,
  image URL and thumbnail URL (\<open>None\<close> for a missing one), the zero-rights licence
  URL, and the landing URL, title, creator, meta-data and tags of the row.
\<close>

theorem process_image_list_records:
  assumes "py_iter image_list = Inr entries"
    and "\<forall>e \<in> set entries. media_entry_ok e"
  shows "process_image_list image_list flu ttl crt md tags ZERO_URL st =
     Inr (if filter qualifies entries = [] then None
          else Some (int (length (items st)) + int (length (filter qualifies entries))),
          st\<lparr>items := items st @
                map (record_of flu ttl crt md tags) (filter qualifies entries)\<rparr>)"
proof -
  have "(\<lambda>e. (record_of flu ttl crt md tags e)\<lparr>license_url := ZERO_URL\<rparr>)
        = record_of flu ttl crt md tags"
    by (simp add: record_of_def fun_eq_iff)
  then show ?thesis
    using assms by (simp add: process_image_list_def process_image_entries_ok)
qed

theorem process_image_list_records_witness:
  "py_iter (JArr
      [JObj [(''type'', JStr ''Images''), (''usage'', JObj [(''access'', JStr ''CC0'')]),
             (''content'', JStr ''u1''), (''idsId'', JStr ''id1'')],
       JObj [(''type'', JStr ''Images''), (''usage'', JObj [(''access'', JStr ''Usage conditions apply'')]),
             (''content'', JStr ''u2''), (''idsId'', JStr ''id2'')],
       JObj [(''type'', JStr ''Videos''), (''usage'', JStr ''CC0'')]])
    = Inr
      [JObj [(''type'', JStr ''Images''), (''usage'', JObj [(''access'', JStr ''CC0'')]),
             (''content'', JStr ''u1''), (''idsId'', JStr ''id1'')],
       JObj [(''type'', JStr ''Images''), (''usage'', JObj [(''access'', JStr ''Usage conditions apply'')]),
             (''content'', JStr ''u2''), (''idsId'', JStr ''id2'')],
       JObj [(''type'', JStr ''Videos''), (''usage'', JStr ''CC0'')]]
   \<and> process_image_list (JArr
      [JObj [(''type'', JStr ''Images''), (''usage'', JObj [(''access'', JStr ''CC0'')]),
             (''content'', JStr ''u1''), (''idsId'', JStr ''id1'')],
       JObj [(''type'', JStr ''Images''), (''usage'', JObj [(''access'', JStr ''Usage conditions apply'')]),
             (''content'', JStr ''u2''), (''idsId'', JStr ''id2'')],
       JObj [(''type'', JStr ''Videos''), (''usage'', JStr ''CC0'')]])
      (JStr ''https://collections.si.edu/r1'') (JStr ''A title'') JNull
      [(''unit_code'', JNull), (''data_source'', JNull)] JNull ZERO_URL \<lparr>items = []\<rparr>
    = Inr (Some 1,
        \<lparr>items = [\<lparr>foreign_landing_url = JStr ''https://collections.si.edu/r1'',
                   image_url = JStr ''u1'', thumbnail_url = JNull, license_url = ZERO_URL,
                   foreign_identifier = JStr ''id1'', title = JStr ''A title'', creator = JNull,
                   meta_data = [(''unit_code'', JNull), (''data_source'', JNull)],
                   raw_tags = JNull\<rparr>]\<rparr>)"
  using process_image_list_records
    [of "JArr
      [JObj [(''type'', JStr ''Images''), (''usage'', JObj [(''access'', JStr ''CC0'')]),
             (''content'', JStr ''u1''), (''idsId'', JStr ''id1'')],
       JObj [(''type'', JStr ''Images''), (''usage'', JObj [(''access'', JStr ''Usage conditions apply'')]),
             (''content'', JStr ''u2''), (''idsId'', JStr ''id2'')],
       JObj [(''type'', JStr ''Videos''), (''usage'', JStr ''CC0'')]]"
      "[JObj [(''type'', JStr ''Images''), (''usage'', JObj [(''access'', JStr ''CC0'')]),
             (''content'', JStr ''u1''), (''idsId'', JStr ''id1'')],
       JObj [(''type'', JStr ''Images''), (''usage'', JObj [(''access'', JStr ''Usage conditions apply'')]),
             (''content'', JStr ''u2''), (''idsId'', JStr ''id2'')],
       JObj [(''type'', JStr ''Videos''), (''usage'', JStr ''CC0'')]]"
      "JStr ''https://collections.si.edu/r1''" "JStr ''A title''" JNull
      "[(''unit_code'', JNull), (''data_source'', JNull)]" JNull "\<lparr>items = []\<rparr>"]
  by (simp add: media_entry_ok_def qualifies_def usage_access_def record_of_def or_none_def)

text \<open>An entry that does not qualify can raise: one that is no object, or one of type
  \<open>Images\<close> whose usage is no object.\<close>

theorem malformed_media_entry_raises_counterexample:
  "process_image_list (JArr [JStr ''https://ids.si.edu/ids/deliveryService?id=X''])
      (JStr ''https://collections.si.edu/r1'') (JStr ''A title'') JNull
      [(''unit_code'', JNull), (''data_source'', JNull)] JNull ZERO_URL \<lparr>items = []\<rparr>
    = Inl AttributeError
   \<and> process_image_list (JArr [JObj [(''type'', JStr ''Images''), (''usage'', JStr ''CC0'')]])
      (JStr ''https://collections.si.edu/r1'') (JStr ''A title'') JNull
      [(''unit_code'', JNull), (''data_source'', JNull)] JNull ZERO_URL \<lparr>items = []\<rparr>
    = Inl AttributeError"
  by (simp add: process_image_list_def is_cc0_image_def)

subsection \<open>Creator\<close>

lemma lowered_get:
  assumes "is_dict e" and "str_or_missing e k"
  shows "bind_err (py_get e k (JStr [])) (\<lambda>v. bind_err (py_lower lower v) f)
         = f (case lowered_field lower e k of Some l \<Rightarrow> l | None \<Rightarrow> [])"
  using assms
  by (auto simp: str_or_missing_def lowered_field_def split: option.splits json.splits)

lemma lowered_field_None:
  "str_or_missing e k \<Longrightarrow> lowered_field lower e k = None \<longleftrightarrow> field e k = None"
  by (auto simp: str_or_missing_def lowered_field_def split: option.splits json.splits)

lemma not_dict_no_field: "\<not> is_dict e \<Longrightarrow> field e k = None"
  by (cases e) simp_all

lemma content_get: "is_dict e \<Longrightarrow> py_get e ''content'' JNull = Inr (content_of e)"
  by (simp add: content_of_def)

lemma is_freetext_creator_ok:
  assumes "map_of creator_types [] = None"
    and "is_dict e \<longrightarrow> str_or_missing e ''label''"
  shows "is_freetext_creator lower creator_types e = Inr (is_creator_entry lower creator_types e)"
proof (cases "is_dict e")
  case False
  then show ?thesis
    by (simp add: is_freetext_creator_def is_creator_entry_def role_rank_def lowered_field_def
        not_dict_no_field)
next
  case True
  with assms(2) have s: "str_or_missing e ''label''" by simp
  show ?thesis
  proof (cases "lowered_field lower e ''label''")
    case None
    then show ?thesis
      using True assms(1)
      by (simp add: is_freetext_creator_def lowered_get [OF True s] is_creator_entry_def
          role_rank_def del: py_get_dict)
  next
    case (Some l)
    then show ?thesis
      using True
      by (simp add: is_freetext_creator_def lowered_get [OF True s] is_creator_entry_def
          role_rank_def content_get del: py_get_dict)
  qed
qed

lemma filter_err_pure:
  "\<forall>x \<in> set xs. p x = Inr (q x) \<Longrightarrow> filter_err p xs = Inr (filter q xs)"
  by (induction xs) simp_all

lemma map_err_pure:
  "\<forall>x \<in> set xs. f x = Inr (g x) \<Longrightarrow> map_err f xs = Inr (map g xs)"
  by (induction xs) simp_all

lemma creator_rank_ok:
  assumes "is_creator_entry lower creator_types e"
  shows "creator_rank lower creator_types e = Inr (the (role_rank lower creator_types e))"
proof -
  from assms obtain l r where l: "lowered_field lower e ''label'' = Some l"
    and r: "map_of creator_types l = Some r"
    by (auto simp: is_creator_entry_def role_rank_def split: option.splits)
  from l obtain s where s: "field e ''label'' = Some (JStr s)" "l = str_lower lower s"
    by (auto simp: lowered_field_def split: option.splits json.splits)
  then have "is_dict e" by (cases e) simp_all
  then obtain kvs where e: "e = JObj kvs" by (cases e) simp_all
  with s r l show ?thesis
    by (simp add: creator_rank_def role_rank_def)
qed

lemma insort_key_tagged:
  "insort_key fst (k a, a) (map (\<lambda>x. (k x, x)) ys) = map (\<lambda>x. (k x, x)) (insort_key k a ys)"
  by (induction ys) simp_all

lemma sort_key_tagged:
  "sort_key fst (map (\<lambda>x. (k x, x)) xs) = map (\<lambda>x. (k x, x)) (sort_key k xs)"
  by (induction xs) (simp_all add: insort_key_tagged)

lemma py_sorted_pure:
  assumes "\<forall>x \<in> set xs. key x = Inr (k x)"
  shows "py_sorted key xs = Inr (sort_key k xs)"
proof -
  have "zip (map k xs) xs = map (\<lambda>x. (k x, x)) xs"
    by (induction xs) simp_all
  moreover have "map_err key xs = Inr (map k xs)"
    using assms by (rule map_err_pure)
  ultimately show ?thesis
    by (simp add: py_sorted_def sort_key_tagged comp_def)
qed

lemma hd_insort_key:
  "hd (insort_key k a ys) = (if ys = [] \<or> k a \<le> k (hd ys) then a else hd ys)"
  by (cases ys) simp_all

lemma sort_key_eq_Nil: "sort_key k xs = [] \<longleftrightarrow> xs = []"
  by (metis length_sort list.size(3) length_0_conv)

text \<open>The head of a stable sort is the first element of least key.\<close>

lemma hd_sort_key_first_least:
  "xs \<noteq> [] \<Longrightarrow>
   \<exists>pre e post. xs = pre @ e # post \<and> hd (sort_key k xs) = e
     \<and> (\<forall>x \<in> set pre. k e < k x) \<and> (\<forall>x \<in> set post. k e \<le> k x)"
proof (induction xs)
  case Nil
  then show ?case by simp
next
  case (Cons a xs)
  show ?case
  proof (cases "xs = []")
    case True
    then have "a # xs = [] @ a # [] \<and> hd (sort_key k (a # xs)) = a" by simp
    with True show ?thesis by fastforce
  next
    case False
    with Cons.IH obtain pre e post where xs: "xs = pre @ e # post"
      and hd: "hd (sort_key k xs) = e"
      and pre: "\<forall>x \<in> set pre. k e < k x" and post: "\<forall>x \<in> set post. k e \<le> k x"
      by blast
    have ne: "sort_key k xs \<noteq> []" using False by (simp add: sort_key_eq_Nil)
    show ?thesis
    proof (cases "k a \<le> k e")
      case True
      then have "hd (sort_key k (a # xs)) = a"
        using hd ne by (simp add: hd_insort_key)
      moreover have "\<forall>x \<in> set xs. k a \<le> k x"
        using True xs pre post by force
      ultimately have "a # xs = [] @ a # xs \<and> hd (sort_key k (a # xs)) = a
          \<and> (\<forall>x \<in> set []. k a < k x) \<and> (\<forall>x \<in> set xs. k a \<le> k x)"
        by simp
      then show ?thesis by blast
    next
      case False
      then have "hd (sort_key k (a # xs)) = e"
        using hd ne by (simp add: hd_insort_key)
      moreover have "\<forall>x \<in> set (a # pre). k e < k x"
        using False pre by simp
      moreover have "a # xs = (a # pre) @ e # post" using xs by simp
      ultimately show ?thesis using post by blast
    qed
  qed
qed

lemma next_personal_main_ok:
  "\<forall>e \<in> set es. is_dict e \<longrightarrow> str_or_missing e ''type'' \<Longrightarrow>
   next_personal_main lower es =
     Inr (case filter (is_personal_main lower) es of [] \<Rightarrow> JNull | e # _ \<Rightarrow> content_of e)"
proof (induction es)
  case Nil
  then show ?case by simp
next
  case (Cons e es)
  then have IH: "next_personal_main lower es =
     Inr (case filter (is_personal_main lower) es of [] \<Rightarrow> JNull | e # _ \<Rightarrow> content_of e)"
    by simp
  show ?case
  proof (cases "is_dict e")
    case False
    then have "\<not> is_personal_main lower e"
      by (simp add: is_personal_main_def lowered_field_def not_dict_no_field)
    with False IH show ?thesis by simp
  next
    case True
    with Cons.prems have s: "str_or_missing e ''type''" by simp
    from True obtain kvs where e: "e = JObj kvs" by (cases e) simp_all
    have c: "py_subscript e ''content'' = Inr (content_of e)" if "py_truthy (content_of e)"
      using that e by (auto simp: content_of_def split: option.splits)
    show ?thesis
    proof (cases "is_personal_main lower e")
      case True
      then have "lowered_field lower e ''type'' = Some ''personal_main''" "py_truthy (content_of e)"
        by (simp_all add: is_personal_main_def)
      then show ?thesis
        using \<open>is_dict e\<close> c True
        by (simp add: lowered_get [OF \<open>is_dict e\<close> s] content_get del: py_get_dict)
    next
      case False
      then consider "lowered_field lower e ''type'' = None"
        | l where "lowered_field lower e ''type'' = Some l" "l \<noteq> ''personal_main''"
        | "lowered_field lower e ''type'' = Some ''personal_main''" "\<not> py_truthy (content_of e)"
        by (cases "lowered_field lower e ''type''") (auto simp: is_personal_main_def)
      then show ?thesis
        using \<open>is_dict e\<close> IH False
        by cases
          (simp_all add: lowered_get [OF \<open>is_dict e\<close> s] content_get del: py_get_dict)
    qed
  qed
qed

lemma py_get_or: "is_dict e \<Longrightarrow> py_get e k d = Inr (get_or e k d)"
  by (simp add: get_or_def)

lemma iterable_withD:
  "iterable_with P v \<Longrightarrow> \<exists>xs. py_iter v = Inr xs \<and> (\<forall>x \<in> set xs. P x)"
  by (auto simp: iterable_with_def list_all_iff split: sum.splits)

lemma get_creator_result:
  assumes "map_of creator_types [] = None"
    and "py_get freetext ''name'' (JArr []) = Inr names"
    and "py_iter names = Inr name_list"
    and "\<forall>e \<in> set name_list. is_dict e \<longrightarrow> str_or_missing e ''label''"
    and "py_get indexed_structured ''name'' (JArr []) = Inr is_names"
    and "py_iter is_names = Inr is_list"
    and "\<forall>e \<in> set is_list. is_dict e \<longrightarrow> str_or_missing e ''type''"
  shows "get_creator lower indexed_structured freetext creator_types =
     Inr (case sort_key (\<lambda>e. the (role_rank lower creator_types e))
                 (filter (is_creator_entry lower creator_types) name_list) of
            [] \<Rightarrow> (case filter (is_personal_main lower) is_list of [] \<Rightarrow> JNull | e # _ \<Rightarrow> content_of e)
          | c # _ \<Rightarrow> content_of c)"
proof -
  let ?Q = "filter (is_creator_entry lower creator_types) name_list"
  let ?k = "\<lambda>e. the (role_rank lower creator_types e)"
  have "\<forall>e \<in> set name_list.
          is_freetext_creator lower creator_types e = Inr (is_creator_entry lower creator_types e)"
    using assms(1,4) by (simp add: is_freetext_creator_ok)
  then have flt: "filter_err (is_freetext_creator lower creator_types) name_list = Inr ?Q"
    by (rule filter_err_pure)
  have "\<forall>e \<in> set ?Q. creator_rank lower creator_types e = Inr (?k e)"
    by (simp add: creator_rank_ok)
  then have srt: "py_sorted (creator_rank lower creator_types) ?Q = Inr (sort_key ?k ?Q)"
    by (rule py_sorted_pure)
  have npm: "next_personal_main lower is_list =
      Inr (case filter (is_personal_main lower) is_list of [] \<Rightarrow> JNull | e # _ \<Rightarrow> content_of e)"
    using assms(7) by (rule next_personal_main_ok)
  have run: "get_creator lower indexed_structured freetext creator_types =
      bind_err (case sort_key ?k ?Q of [] \<Rightarrow> Inr JNull | c # _ \<Rightarrow> py_subscript c ''content'')
        (\<lambda>creator. if creator = JNull then next_personal_main lower is_list else Inr creator)"
    using assms(2,3,5,6) flt srt by (simp add: get_creator_def)
  show ?thesis
  proof (cases "sort_key ?k ?Q")
    case Nil
    with run npm show ?thesis by simp
  next
    case (Cons c rest)
    then have "c \<in> set (sort_key ?k ?Q)" by simp
    then have ce: "is_creator_entry lower creator_types c" by simp
    then have truthy: "py_truthy (content_of c)" by (simp add: is_creator_entry_def)
    then have nonnull: "content_of c \<noteq> JNull" by auto
    from ce have "is_dict c"
      by (cases c) (simp_all add: is_creator_entry_def role_rank_def lowered_field_def)
    then obtain kvs where c: "c = JObj kvs" by (cases c) simp_all
    have "py_subscript c ''content'' = Inr (content_of c)"
      using truthy c by (auto simp: content_of_def split: option.splits)
    with run Cons nonnull show ?thesis by simp
  qed
qed

text \<open>
  C4. Let the table have no entry for the empty role, let both name lists be iterable, and
  let the objects in them have a string (or nothing) as \<open>label\<close>, respectively
  \<open>type\<close>. Among the name entries of the free text that qualify (objects with a
  recognised lower-cased label and non-empty content), the creator is the content of the
  first entry of least rank: every qualifying entry before it has a greater rank, every
  one after it a rank at least as great. If no entry of the free text qualifies, the
  creator is the content of the first indexed-structured name entry that is an object of
  lower-cased type \<open>personal_main\<close> with non-empty content, and \<open>None\<close> if there
  is none. The result is a function of the two arguments and the table. Lower-casing is
  that of the language: the statement holds for every function \<open>lower\<close>, so also for
  the Unicode-aware \<open>str.lower\<close>.
\<close>

theorem get_creator_priority:
  assumes "map_of creator_types [] = None"
    and "py_get freetext ''name'' (JArr []) = Inr names"
    and "py_iter names = Inr name_list"
    and "\<forall>e \<in> set name_list. is_dict e \<longrightarrow> str_or_missing e ''label''"
    and "py_get indexed_structured ''name'' (JArr []) = Inr is_names"
    and "py_iter is_names = Inr is_list"
    and "\<forall>e \<in> set is_list. is_dict e \<longrightarrow> str_or_missing e ''type''"
  shows "(filter (is_creator_entry lower creator_types) name_list \<noteq> [] \<longrightarrow>
           (\<exists>pre e post.
              filter (is_creator_entry lower creator_types) name_list = pre @ e # post
              \<and> (\<forall>x \<in> set pre. the (role_rank lower creator_types e) < the (role_rank lower creator_types x))
              \<and> (\<forall>x \<in> set post. the (role_rank lower creator_types e) \<le> the (role_rank lower creator_types x))
              \<and> get_creator lower indexed_structured freetext creator_types = Inr (content_of e)))
       \<and> (filter (is_creator_entry lower creator_types) name_list = [] \<longrightarrow>
           get_creator lower indexed_structured freetext creator_types =
             Inr (case filter (is_personal_main lower) is_list of
                    [] \<Rightarrow> JNull
                  | e # _ \<Rightarrow> content_of e))"
proof -
  let ?Q = "filter (is_creator_entry lower creator_types) name_list"
  let ?k = "\<lambda>e. the (role_rank lower creator_types e)"
  note run = get_creator_result [OF assms]
  show ?thesis
  proof (intro conjI impI)
    assume "?Q = []"
    then show "get_creator lower indexed_structured freetext creator_types =
             Inr (case filter (is_personal_main lower) is_list of [] \<Rightarrow> JNull | e # _ \<Rightarrow> content_of e)"
      using run by simp
  next
    assume ne: "?Q \<noteq> []"
    from hd_sort_key_first_least [OF ne, of ?k] obtain pre e post where
      dec: "?Q = pre @ e # post" and hd: "hd (sort_key ?k ?Q) = e"
      and pre: "\<forall>x \<in> set pre. ?k e < ?k x" and post: "\<forall>x \<in> set post. ?k e \<le> ?k x"
      by blast
    from ne have "sort_key ?k ?Q \<noteq> []" by (simp add: sort_key_eq_Nil)
    with hd obtain rest where "sort_key ?k ?Q = e # rest"
      by (cases "sort_key ?k ?Q") simp_all
    with run have "get_creator lower indexed_structured freetext creator_types = Inr (content_of e)"
      by simp
    with dec pre post
    show "\<exists>pre e post. ?Q = pre @ e # post
              \<and> (\<forall>x \<in> set pre. ?k e < ?k x)
              \<and> (\<forall>x \<in> set post. ?k e \<le> ?k x)
              \<and> get_creator lower indexed_structured freetext creator_types = Inr (content_of e)"
      by blast
  qed
qed

lemma creator_types_no_empty_role: "map_of CREATOR_TYPES [] = None"
  by (simp add: CREATOR_TYPES_def)

lemma rank_publisher: "role_rank ascii_lower CREATOR_TYPES publisher_entry = Some 4"
  by (simp add: role_rank_def lowered_field_def publisher_entry_def CREATOR_TYPES_def
      str_lower_def ascii_lower_def ascii_lower_char_def)

lemma rank_creator: "role_rank ascii_lower CREATOR_TYPES creator_entry = Some 0"
  by (simp add: role_rank_def lowered_field_def creator_entry_def CREATOR_TYPES_def
      str_lower_def ascii_lower_def ascii_lower_char_def)

theorem get_creator_priority_witness:
  "map_of CREATOR_TYPES [] = None
   \<and> py_get freetext_publisher_creator ''name'' (JArr [])
       = Inr (JArr [publisher_entry, JStr ''Smithsonian'', creator_entry])
   \<and> filter (is_creator_entry ascii_lower CREATOR_TYPES) [publisher_entry, JStr ''Smithsonian'', creator_entry]
       = [publisher_entry, creator_entry]
   \<and> get_creator ascii_lower indexed_jane freetext_publisher_creator CREATOR_TYPES = Inr (JStr ''ArtistX'')"
proof -
  let ?names = "[publisher_entry, JStr ''Smithsonian'', creator_entry]"
  let ?is = "[JStr ''Doe, John'', JObj [(''type'', JStr ''personal_main''), (''content'', JStr ''Jane'')]]"
  have h2: "py_get freetext_publisher_creator ''name'' (JArr []) = Inr (JArr ?names)"
    by (simp add: freetext_publisher_creator_def)
  have h3: "py_iter (JArr ?names) = Inr ?names" by simp
  have h4: "\<forall>e \<in> set ?names. is_dict e \<longrightarrow> str_or_missing e ''label''"
    by (simp add: str_or_missing_def publisher_entry_def creator_entry_def)
  have h5: "py_get indexed_jane ''name'' (JArr []) = Inr (JArr ?is)"
    by (simp add: indexed_jane_def)
  have h6: "py_iter (JArr ?is) = Inr ?is" by simp
  have h7: "\<forall>e \<in> set ?is. is_dict e \<longrightarrow> str_or_missing e ''type''"
    by (simp add: str_or_missing_def)
  have Q: "filter (is_creator_entry ascii_lower CREATOR_TYPES) ?names = [publisher_entry, creator_entry]"
    by (simp add: is_creator_entry_def rank_publisher rank_creator)
       (simp add: role_rank_def lowered_field_def content_of_def publisher_entry_def
          creator_entry_def)
  from get_creator_priority
         [where lower = ascii_lower, OF creator_types_no_empty_role h2 h3 h4 h5 h6 h7] Q
  obtain pre e post where dec: "[publisher_entry, creator_entry] = pre @ e # post"
    and post: "\<forall>x \<in> set post. the (role_rank ascii_lower CREATOR_TYPES e) \<le> the (role_rank ascii_lower CREATOR_TYPES x)"
    and res: "get_creator ascii_lower indexed_jane freetext_publisher_creator CREATOR_TYPES = Inr (content_of e)"
    by auto
  from dec have "(e = publisher_entry \<and> post = [creator_entry]) \<or> e = creator_entry"
    by (auto simp: Cons_eq_append_conv)
  with post have "e = creator_entry"
    by (auto simp: rank_publisher rank_creator)
  with res have "get_creator ascii_lower indexed_jane freetext_publisher_creator CREATOR_TYPES = Inr (JStr ''ArtistX'')"
    by (simp add: content_of_def creator_entry_def)
  with h2 Q creator_types_no_empty_role show ?thesis by simp
qed

lemma get_creator_either_order:
  "get_creator ascii_lower (JObj []) (JObj [(''name'', JArr [publisher_entry, creator_entry])]) CREATOR_TYPES
     = Inr (JStr ''ArtistX'')"
  "get_creator ascii_lower (JObj []) (JObj [(''name'', JArr [creator_entry, publisher_entry])]) CREATOR_TYPES
     = Inr (JStr ''ArtistX'')"
  by (simp_all add: get_creator_def is_freetext_creator_def creator_rank_def py_sorted_def
      publisher_entry_def creator_entry_def CREATOR_TYPES_def str_lower_def ascii_lower_def
      ascii_lower_char_def)

lemma get_creator_indexed_fallback:
  "get_creator ascii_lower indexed_jane (JObj []) CREATOR_TYPES = Inr (JStr ''Jane'')"
  "get_creator ascii_lower (JObj []) (JObj []) CREATOR_TYPES = Inr JNull"
  by (simp_all add: get_creator_def py_sorted_def indexed_jane_def str_lower_def ascii_lower_def ascii_lower_char_def)

text \<open>Outside the well-typed entries the function raises: a label that is not a string,
  in any object of the name list.\<close>

lemma get_creator_label_not_string:
  "get_creator ascii_lower (JObj []) (JObj [(''name'', JArr [creator_entry, JObj [(''label'', JNull)]])])
     CREATOR_TYPES = Inl AttributeError"
  by (simp add: get_creator_def is_freetext_creator_def creator_entry_def CREATOR_TYPES_def
      str_lower_def ascii_lower_def ascii_lower_char_def)

text \<open>Labels that are not ASCII. A label qualifies when its lower case, as the language
  gives it, is a role of the table: a label in capitals that starts with an E with
  acute accent (bytes C3 89), against a table that has the role in small letters (bytes
  C3 A9 for the first), and \<open>MaKer\<close> written with the Kelvin sign (bytes E2 84 AA),
  whose lower case is the ASCII \<open>k\<close>, against the module's table.\<close>

lemma get_creator_latin_label:
  assumes "lower ([CHR 0xC3, CHR 0x89] @ ''DITEUR'') = [CHR 0xC3, CHR 0xA9] @ ''diteur''"
  shows "get_creator lower (JObj [])
           (JObj [(''name'', JArr [JObj [(''label'', JStr ([CHR 0xC3, CHR 0x89] @ ''DITEUR'')),
                                          (''content'', JStr ''X'')]])])
           [([CHR 0xC3, CHR 0xA9] @ ''diteur'', 0)] = Inr (JStr ''X'')"
  using assms
  by (simp add: get_creator_def is_freetext_creator_def creator_rank_def py_sorted_def
      str_lower_def)

lemma get_creator_kelvin_label:
  assumes "lower (''Ma'' @ [CHR 0xE2, CHR 0x84, CHR 0xAA] @ ''er'') = ''maker''"
  shows "get_creator lower (JObj [])
           (JObj [(''name'', JArr
              [JObj [(''label'', JStr (''Ma'' @ [CHR 0xE2, CHR 0x84, CHR 0xAA] @ ''er'')),
                     (''content'', JStr ''X'')]])])
           CREATOR_TYPES = Inr (JStr ''X'')"
  using assms
  by (simp add: get_creator_def is_freetext_creator_def creator_rank_def py_sorted_def
      str_lower_def CREATOR_TYPES_def)

subsection \<open>A whole row\<close>

lemma get_foreign_landing_url_total:
  "is_dict d \<Longrightarrow> \<exists>u. get_foreign_landing_url d = Inr u"
  by (simp add: get_foreign_landing_url_def)

lemma get_creator_total:
  assumes "is_dict freetext" and "is_dict indexed_structured"
    and "iterable_with (lowerable ''label'') (get_or freetext ''name'' (JArr []))"
    and "iterable_with (lowerable ''type'') (get_or indexed_structured ''name'' (JArr []))"
  shows "\<exists>c. get_creator lower indexed_structured freetext CREATOR_TYPES = Inr c"
proof -
  from iterable_withD [OF assms(3)] obtain name_list where
    n: "py_iter (get_or freetext ''name'' (JArr [])) = Inr name_list"
       "\<forall>e \<in> set name_list. is_dict e \<longrightarrow> str_or_missing e ''label''"
    by (auto simp: lowerable_def)
  from iterable_withD [OF assms(4)] obtain is_list where
    i: "py_iter (get_or indexed_structured ''name'' (JArr [])) = Inr is_list"
       "\<forall>e \<in> set is_list. is_dict e \<longrightarrow> str_or_missing e ''type''"
    by (auto simp: lowerable_def)
  have "map_of CREATOR_TYPES [] = None" by (simp add: CREATOR_TYPES_def)
  from get_creator_result [OF this py_get_or [OF assms(1)] n py_get_or [OF assms(2)] i]
  show ?thesis by blast
qed

lemma extract_meta_data_total:
  assumes "is_dict dnr" and "is_dict freetext"
    and "iterable_with note_ok (get_or freetext ''notes'' (JArr []))"
  shows "\<exists>md. extract_meta_data dnr freetext = Inr md"
proof -
  from iterable_withD [OF assms(3)] obtain note_list where
    "py_iter (get_or freetext ''notes'' (JArr [])) = Inr note_list"
    "\<forall>n \<in> set note_list. note_ok n"
    by blast
  then show ?thesis
    using assms(1)
    by (simp add: extract_meta_data_def py_get_or [OF assms(2)] py_get_or [OF assms(1)]
        extract_notes_ok Let_def del: py_get_dict)
qed

lemma extract_tags_total:
  assumes "is_dict ist"
    and "array_field ist ''date'' \<noteq> None" and "array_field ist ''object_type'' \<noteq> None"
    and "array_field ist ''topic'' \<noteq> None" and "array_field ist ''place'' \<noteq> None"
  shows "\<exists>t. extract_tags ist = Inr t"
  using assms by (auto simp: extract_tags_def array_field_get simp del: py_get_dict)

lemma process_image_list_total:
  assumes "iterable_with media_entry_ok media"
  shows "\<exists>r. process_image_list media flu ttl crt md tags lic st = Inr r"
proof -
  from iterable_withD [OF assms] obtain es where
    "py_iter media = Inr es" "\<forall>e \<in> set es. media_entry_ok e"
    by blast
  then show ?thesis
    by (simp add: process_image_list_def process_image_entries_ok)
qed

text \<open>
  C1, as the code has it. For a well-formed row (\<open>row_ok\<close>: an object whose content,
  attribute groups and online media are objects where present, with the free text
  present, whose name lists, notes, tag fields and media list have the shape their loops
  work on) every extraction step returns a value and processing the row raises nothing:
  the landing URL, the creator, the meta-data and the tags are computed, a missing field
  gives \<open>None\<close> or the empty default, and the media list is processed. Nothing is said
  here of a row whose content has no \<open>freetext\<close>.
\<close>

theorem row_extraction_total:
  assumes "row_ok row"
  shows "\<exists>u c md t r.
           get_foreign_landing_url
             (get_or (get_or row ''content'' (JObj [])) ''descriptiveNonRepeating'' (JObj [])) = Inr u
         \<and> get_creator lower
             (get_or (get_or row ''content'' (JObj [])) ''indexedStructured'' (JObj []))
             (get_or (get_or row ''content'' (JObj [])) ''freetext'' JNull) CREATOR_TYPES = Inr c
         \<and> extract_meta_data
             (get_or (get_or row ''content'' (JObj [])) ''descriptiveNonRepeating'' (JObj []))
             (get_or (get_or row ''content'' (JObj [])) ''freetext'' JNull) = Inr md
         \<and> extract_tags
             (get_or (get_or row ''content'' (JObj [])) ''indexedStructured'' (JObj [])) = Inr t
         \<and> process_row lower row total_images st = Inr r"
proof -
  let ?content = "get_or row ''content'' (JObj [])"
  let ?dnr = "get_or ?content ''descriptiveNonRepeating'' (JObj [])"
  let ?ist = "get_or ?content ''indexedStructured'' (JObj [])"
  let ?ft = "get_or ?content ''freetext'' JNull"
  let ?om = "get_or ?dnr ''online_media'' (JObj [])"
  let ?media = "get_or ?om ''media'' JNull"
  from assms have d: "is_dict row" "is_dict ?content" "is_dict ?dnr" "is_dict ?ist"
      "is_dict ?ft" "is_dict ?om"
    and names: "iterable_with (lowerable ''label'') (get_or ?ft ''name'' (JArr []))"
      "iterable_with (lowerable ''type'') (get_or ?ist ''name'' (JArr []))"
    and nts: "iterable_with note_ok (get_or ?ft ''notes'' (JArr []))"
    and tags: "array_field ?ist ''date'' \<noteq> None" "array_field ?ist ''object_type'' \<noteq> None"
      "array_field ?ist ''topic'' \<noteq> None" "array_field ?ist ''place'' \<noteq> None"
    and media: "?media \<noteq> JNull \<longrightarrow> iterable_with media_entry_ok ?media"
    by (simp_all add: row_ok_def Let_def)
  obtain u where u: "get_foreign_landing_url ?dnr = Inr u"
    using get_foreign_landing_url_total [OF d(3)] by blast
  obtain c where c: "get_creator lower ?ist ?ft CREATOR_TYPES = Inr c"
    using get_creator_total [OF d(5) d(4) names] by blast
  obtain md where md: "extract_meta_data ?dnr ?ft = Inr md"
    using extract_meta_data_total [OF d(3) d(5) nts] by blast
  obtain t where t: "extract_tags ?ist = Inr t"
    using extract_tags_total [OF d(4) tags] by blast
  have run: "process_row lower row total_images st =
      (if ?media \<noteq> JNull
       then process_image_list ?media u (get_or row ''title'' JNull) c md t ZERO_URL st
       else Inr (total_images, st))"
    by (simp add: process_row_def py_get_or [OF d(1)] py_get_or [OF d(2)] py_get_or [OF d(3)]
        py_get_or [OF d(6)] u c md t del: py_get_dict)
  have "\<exists>r. process_row lower row total_images st = Inr r"
  proof (cases "?media = JNull")
    case True
    with run show ?thesis by simp
  next
    case False
    with media have "iterable_with media_entry_ok ?media" by simp
    from process_image_list_total [OF this, of u "get_or row ''title'' JNull" c md t ZERO_URL st]
    show ?thesis using run False by simp
  qed
  with u c md t show ?thesis by blast
qed

theorem row_extraction_total_witness:
  "get_foreign_landing_url (JObj [(''online_media'', JObj [(''media'', JArr
        [JObj [(''type'', JStr ''Images''), (''usage'', JObj [(''access'', JStr ''CC0'')])]])])])
     = Inr JNull
   \<and> get_creator ascii_lower (JObj []) (JObj []) CREATOR_TYPES = Inr JNull
   \<and> extract_tags (JObj []) = Inr JNull
   \<and> process_row ascii_lower
       (JObj [(''content'', JObj [(''freetext'', JObj []),
          (''descriptiveNonRepeating'', JObj [(''online_media'', JObj [(''media'', JArr
             [JObj [(''type'', JStr ''Images''), (''usage'', JObj [(''access'', JStr ''CC0'')])]])])])])])
       None \<lparr>items = []\<rparr>
     = Inr (Some 1,
        \<lparr>items = [\<lparr>foreign_landing_url = JNull, image_url = JNull, thumbnail_url = JNull,
                   license_url = ZERO_URL, foreign_identifier = JNull, title = JNull,
                   creator = JNull,
                   meta_data = [(''unit_code'', JNull), (''data_source'', JNull)],
                   raw_tags = JNull\<rparr>]\<rparr>)"
proof -
  let ?row = "JObj [(''content'', JObj [(''freetext'', JObj []),
          (''descriptiveNonRepeating'', JObj [(''online_media'', JObj [(''media'', JArr
             [JObj [(''type'', JStr ''Images''), (''usage'', JObj [(''access'', JStr ''CC0'')])]])])])])]"
  have ok: "row_ok ?row"
    by (simp add: row_ok_def get_or_def iterable_with_def array_field_def media_entry_ok_def)
  from row_extraction_total [OF ok, of ascii_lower None "\<lparr>items = []\<rparr>"]
  obtain u c md t r where
    "get_foreign_landing_url (get_or (get_or ?row ''content'' (JObj []))
        ''descriptiveNonRepeating'' (JObj [])) = Inr u"
    "process_row ascii_lower ?row None \<lparr>items = []\<rparr> = Inr r"
    by blast
  then show ?thesis
    by (simp add: get_or_def process_row_def get_foreign_landing_url_def get_creator_def
        py_sorted_def extract_meta_data_def extract_tags_def process_image_list_def
        is_cc0_image_def add_item_def)
qed

text \<open>A field of the wrong shape raises: a name entry whose label is \<open>null\<close>, a
  note whose content is a number.\<close>

theorem malformed_field_raises_counterexample:
  "process_row ascii_lower
     (JObj [(''content'', JObj [(''freetext'', JObj [(''name'', JArr
        [JObj [(''label'', JNull), (''content'', JStr ''Unknown'')]])])])])
     None \<lparr>items = []\<rparr> = Inl AttributeError
   \<and> process_row ascii_lower
     (JObj [(''content'', JObj [(''freetext'', JObj [(''notes'', JArr
        [JObj [(''label'', JStr ''Summary''), (''content'', JNum 1905)]])])])])
     None \<lparr>items = []\<rparr> = Inl TypeError"
  by (simp add: process_row_def get_foreign_landing_url_def get_creator_def
      is_freetext_creator_def py_sorted_def extract_meta_data_def)

end
